theory Spec2Isabelle
  imports Main
begin

section \<open>The Selenium middleware of scrapy-selenium, with a pool of drivers\<close>

text \<open>
  A shallow embedding of \<^verbatim>\<open>src/scrapy_selenium/middlewares.py\<close>. The class
  \<^verbatim>\<open>SeleniumMiddleware\<close> keeps its drivers in a \<^verbatim>\<open>queue.Queue\<close> bounded by
  the pool size. Everything outside the file (the Selenium drivers, the module system, the
  browser answering a request) is an explicit \<open>world\<close> that the functions take and return:
  it records which sessions were started, which drivers were quit and which driver calls
  were made, and it decides which external calls fail.
\<close>

subsection \<open>Exceptions and results\<close>

text \<open>
  The exceptions of the Python run time and of the libraries that the code can meet. The
  string is the name or message that comes with the exception.
\<close>

datatype py_exception =
    Empty
  | ValueError string
  | TypeError string
  | NameError string
  | UnboundLocalError string
  | ModuleNotFoundError string
  | WebDriverException string

text \<open>
  A call returns, raises, or never comes back: a \<^verbatim>\<open>Queue.put\<close> on a full queue and a
  \<^verbatim>\<open>Queue.get\<close> without timeout on an empty one wait for another thread, and in a run
  where no other thread acts they wait forever.
\<close>

datatype 'a outcome = Returned 'a | Raised py_exception | Blocked

subsection \<open>Drivers, options and the outside world\<close>

text \<open>A driver object is known by its identity: the number of its session start.\<close>

type_synonym driver = nat

record options =
  binary_location :: "string option"
  arguments :: "string list"

text \<open>
  The three ways \<^verbatim>\<open>create_driver\<close> starts a session: the driver class of the kind
  with a local executable, \<^verbatim>\<open>webdriver.Remote\<close> with the options as capabilities, and
  \<^verbatim>\<open>webdriver.Chrome\<close> with the service that webdriver-manager installs.
\<close>

datatype launch =
    LocalDriver string string options
  | RemoteDriver string options
  | ManagedChrome options

text \<open>The calls made on a driver while a request is processed.\<close>

datatype call =
    Get string
  | AddCookie string string
  | WaitUntil string int
  | GetScreenshotAsPng
  | ExecuteScript string
  | PageSource
  | CurrentUrl

record world =
  importable :: "string list"
  manager_installed :: bool
  start_fails :: "nat \<Rightarrow> bool"
  started :: "launch list"
  quit_calls :: "driver list"
  calls :: "(driver \<times> call) list"

text \<open>
  \<open>importable\<close>: the browser kinds \<open>k\<close> for which the modules
  \<^verbatim>\<open>selenium.webdriver.k.webdriver\<close> and \<^verbatim>\<open>selenium.webdriver.k.options\<close> import;
  \<open>manager_installed\<close>: whether \<^verbatim>\<open>webdriver_manager\<close> imports;
  \<open>start_fails n\<close>: whether the session start number \<open>n\<close> fails;
  \<open>started\<close>: every session start attempted so far, oldest first;
  \<open>quit_calls\<close>: the drivers on which \<^verbatim>\<open>quit()\<close> was called, in call order;
  \<open>calls\<close>: the other driver calls, in call order.
\<close>

text \<open>Python's truth value of an optional string: \<^verbatim>\<open>None\<close> and \<^verbatim>\<open>''\<close> are false.\<close>

definition truthy :: "string option \<Rightarrow> bool" where
  "truthy s = (case s of None \<Rightarrow> False | Some t \<Rightarrow> t \<noteq> [])"

text \<open>\<^verbatim>\<open>str.lower\<close> on the ASCII letters (the comparison is with \<^verbatim>\<open>'chrome'\<close>).\<close>

definition char_lower :: "char \<Rightarrow> char" where
  "char_lower c =
     (let n = (of_char c :: nat) in if 65 \<le> n \<and> n \<le> 90 then char_of (n + 32) else c)"

definition lower :: "string \<Rightarrow> string" where
  "lower s = map char_lower s"

text \<open>
  Selenium's \<^verbatim>\<open>Options.add_argument\<close>: an empty argument is refused with
  \<^verbatim>\<open>ValueError\<close>, any other is appended. The loop of lines 72 and 73 calls it for every
  argument in order and ends at the first exception.
\<close>

definition add_argument :: "string \<Rightarrow> options \<Rightarrow> py_exception + options" where
  "add_argument a opts =
     (if a = [] then Inl (ValueError ''argument can not be null'')
      else Inr (opts\<lparr>arguments := arguments opts @ [a]\<rparr>))"

fun add_arguments :: "string list \<Rightarrow> options \<Rightarrow> py_exception + options" where
  "add_arguments [] opts = Inr opts"
| "add_arguments (a # as) opts =
     (case add_argument a opts of
        Inl e \<Rightarrow> Inl e
      | Inr opts' \<Rightarrow> add_arguments as opts')"

text \<open>
  Calling a driver constructor: the attempt is recorded, the new driver's identity is the
  number of the attempt, and the world decides whether the session starts.
\<close>

definition start_session :: "launch \<Rightarrow> world \<Rightarrow> (py_exception + driver) \<times> world" where
  "start_session l w =
     (let n = length (started w); w' = w\<lparr>started := started w @ [l]\<rparr>
      in if start_fails w n then (Inl (WebDriverException ''session not created''), w')
         else (Inr n, w'))"

definition quit :: "driver \<Rightarrow> world \<Rightarrow> world" where
  "quit d w = w\<lparr>quit_calls := quit_calls w @ [d]\<rparr>"

definition log_call :: "driver \<Rightarrow> call \<Rightarrow> world \<Rightarrow> world" where
  "log_call d c w = w\<lparr>calls := calls w @ [(d, c)]\<rparr>"

subsection \<open>The bounded queue\<close>

text \<open>
  \<^verbatim>\<open>queue.Queue(maxsize)\<close> as the list of its items, next out first. A \<open>maxsize\<close> of
  zero or less means no bound. \<^verbatim>\<open>put(item)\<close> waits while the queue is full (\<open>None\<close>:
  it does not come back); \<^verbatim>\<open>get(timeout=t)\<close> refuses a negative \<open>t\<close>, waits for an item
  with no \<open>t\<close>, and raises \<^verbatim>\<open>Empty\<close> when \<open>t\<close> passes with no item.
\<close>

definition queue_full :: "int \<Rightarrow> driver list \<Rightarrow> bool" where
  "queue_full maxsize q = (0 < maxsize \<and> maxsize \<le> int (length q))"

definition queue_put :: "int \<Rightarrow> driver \<Rightarrow> driver list \<Rightarrow> driver list option" where
  "queue_put maxsize d q = (if queue_full maxsize q then None else Some (q @ [d]))"

definition queue_get :: "int option \<Rightarrow> driver list \<Rightarrow> driver outcome \<times> driver list" where
  "queue_get timeout q =
     (case timeout of
        None \<Rightarrow> (case q of [] \<Rightarrow> (Blocked, q) | d # q' \<Rightarrow> (Returned d, q'))
      | Some t \<Rightarrow>
          if t < 0 then (Raised (ValueError ''timeout must be a non-negative number''), q)
          else (case q of [] \<Rightarrow> (Raised Empty, q) | d # q' \<Rightarrow> (Returned d, q')))"

subsection \<open>The middleware object\<close>

record middleware =
  driver_name :: string
  driver_executable_path :: "string option"
  browser_executable_path :: "string option"
  command_executor :: "string option"
  driver_arguments :: "string list option"
  pool_size :: int
  queue_timeout :: "int option"
  driver_pool :: "driver list"

text \<open>
  \<^verbatim>\<open>create_driver\<close> (lines 58 to 104): import the modules of the kind, build the
  options (the binary location when the browser path is truthy, then every argument in
  order), and start the session by the first branch that applies. In the last branch
  \<^verbatim>\<open>driver\<close> is bound only for the kind chrome, and \<^verbatim>\<open>return driver\<close> follows.
\<close>

definition create_driver :: "middleware \<Rightarrow> world \<Rightarrow> (py_exception + driver) \<times> world" where
  "create_driver m w =
     (if driver_name m \<notin> set (importable w)
      then (Inl (ModuleNotFoundError (''selenium.webdriver.'' @ driver_name m)), w)
      else
        (case driver_arguments m of
           None \<Rightarrow> (Inl (TypeError ''NoneType object is not iterable''), w)
         | Some args \<Rightarrow>
             (case add_arguments args
                     \<lparr>binary_location =
                        (if truthy (browser_executable_path m) then browser_executable_path m
                         else None),
                      arguments = []\<rparr> of
                Inl e \<Rightarrow> (Inl e, w)
              | Inr driver_options \<Rightarrow>
                  (case driver_executable_path m of
                     Some p \<Rightarrow> start_session (LocalDriver (driver_name m) p driver_options) w
                   | None \<Rightarrow>
                       (case command_executor m of
                          Some c \<Rightarrow> start_session (RemoteDriver c driver_options) w
                        | None \<Rightarrow>
                            (if \<not> manager_installed w
                             then (Inl (ModuleNotFoundError ''webdriver_manager''), w)
                             else if driver_name m \<noteq> [] \<and> lower (driver_name m) = ''chrome''
                             then start_session (ManagedChrome driver_options) w
                             else (Inl (UnboundLocalError ''driver''), w)))))))"

text \<open>\<^verbatim>\<open>self.driver_pool.put(d)\<close>: the queue is bounded by the pool size (line 25).\<close>

definition put_driver :: "driver \<Rightarrow> middleware \<Rightarrow> middleware option" where
  "put_driver d m =
     (case queue_put (pool_size m) d (driver_pool m) of
        None \<Rightarrow> None
      | Some q \<Rightarrow> Some (m\<lparr>driver_pool := q\<rparr>))"

text \<open>\<^verbatim>\<open>self.driver_pool.get(timeout=self.queue_timeout)\<close> (line 113).\<close>

definition get_driver :: "middleware \<Rightarrow> driver outcome \<times> middleware" where
  "get_driver m =
     (case queue_get (queue_timeout m) (driver_pool m) of
        (out, q) \<Rightarrow> (out, m\<lparr>driver_pool := q\<rparr>))"

text \<open>
  The constructor (lines 15 to 27): an empty queue bounded by the pool size, then
  \<^verbatim>\<open>range(pool_size)\<close> times \<^verbatim>\<open>self.driver_pool.put(self.create_driver())\<close>. An
  exception of \<^verbatim>\<open>create_driver\<close> leaves the constructor at once: there is no handler.
\<close>

fun fill_pool :: "nat \<Rightarrow> middleware \<Rightarrow> world \<Rightarrow> middleware outcome \<times> world" where
  "fill_pool 0 m w = (Returned m, w)"
| "fill_pool (Suc k) m w =
     (case create_driver m w of
        (Inl e, w') \<Rightarrow> (Raised e, w')
      | (Inr d, w') \<Rightarrow>
          (case put_driver d m of
             None \<Rightarrow> (Blocked, w')
           | Some m' \<Rightarrow> fill_pool k m' w'))"

definition init :: "middleware \<Rightarrow> world \<Rightarrow> middleware outcome \<times> world" where
  "init cfg w = fill_pool (nat (pool_size cfg)) (cfg\<lparr>driver_pool := []\<rparr>) w"

subsection \<open>Requests, responses and the browser\<close>

text \<open>
  Modelled from the spec: the request class \<^verbatim>\<open>SeleniumRequest\<close> is imported from
  \<^verbatim>\<open>.http\<close>, which is not among the sources. The record holds the attributes that
  \<^verbatim>\<open>process_request\<close> reads (the spec's EnhancedRequest: url, cookies, wait condition,
  wait time, script, screenshot flag) and the metadata mapping it writes.
  \<open>is_selenium\<close> is the answer of \<^verbatim>\<open>isinstance(request, SeleniumRequest)\<close>;
  \<open>cookies\<close> lists the items of the cookie mapping in the mapping's order; a wait
  condition is a callable, known here by a name, and counts as true when it is set.
\<close>

datatype meta_value = MBytes string | MDriver driver | MOther string

record request =
  is_selenium :: bool
  url :: string
  cookies :: "(string \<times> string) list"
  wait_time :: "int option"
  wait_until :: "string option"
  screenshot :: bool
  script :: "string option"
  meta :: "string \<rightharpoonup> meta_value"

record response =
  response_url :: string
  body :: string
  encoding :: string
  response_request :: request

text \<open>
  What the browser does for one request: for every driver call, the exception it raises
  or the result it gives. This is the part of a run that the middleware does not decide.
\<close>

record browser =
  on_get :: "py_exception option"
  on_add_cookie :: "string \<Rightarrow> py_exception option"
  on_wait :: "py_exception option"
  on_screenshot :: "py_exception + string"
  on_execute_script :: "py_exception option"
  on_page_source :: "py_exception + string"
  on_current_url :: "py_exception + string"

text \<open>
  A Python \<^verbatim>\<open>str\<close> is kept as the bytes of its UTF-8 form, so \<^verbatim>\<open>str.encode\<close>
  (UTF-8 by default) gives the same bytes.
\<close>

definition str_encode :: "string \<Rightarrow> string" where
  "str_encode s = s"

text \<open>The loop over \<^verbatim>\<open>request.cookies.items()\<close> (lines 121 to 127).\<close>

fun add_cookies ::
  "browser \<Rightarrow> driver \<Rightarrow> (string \<times> string) list \<Rightarrow> world \<Rightarrow> py_exception option \<times> world" where
  "add_cookies b d [] w = (None, w)"
| "add_cookies b d ((n, v) # cs) w =
     (let w' = log_call d (AddCookie n v) w
      in (case on_add_cookie b n of
            Some e \<Rightarrow> (Some e, w')
          | None \<Rightarrow> add_cookies b d cs w'))"

text \<open>
  Lines 129 to 132: the wait, only with a wait condition. \<^verbatim>\<open>WebDriverWait\<close> turns the
  wait time into a float first, so without a wait time (the default of the request) it
  raises \<^verbatim>\<open>TypeError\<close> before the driver is asked anything.
\<close>

definition wait_step :: "browser \<Rightarrow> driver \<Rightarrow> request \<Rightarrow> world \<Rightarrow> py_exception option \<times> world" where
  "wait_step b d r w =
     (case wait_until r of
        None \<Rightarrow> (None, w)
      | Some c \<Rightarrow>
          (case wait_time r of
             None \<Rightarrow> (Some (TypeError ''float() argument must be a string or a number''), w)
           | Some t \<Rightarrow> (on_wait b, log_call d (WaitUntil c t) w)))"

text \<open>Lines 134 and 135: the screenshot, stored in the request's metadata.\<close>

definition screenshot_step ::
  "browser \<Rightarrow> driver \<Rightarrow> request \<Rightarrow> world \<Rightarrow> (py_exception + request) \<times> world" where
  "screenshot_step b d r w =
     (if screenshot r
      then (case on_screenshot b of
              Inl e \<Rightarrow> (Inl e, log_call d GetScreenshotAsPng w)
            | Inr png \<Rightarrow>
                (Inr (r\<lparr>meta := (meta r)(''screenshot'' \<mapsto> MBytes png)\<rparr>),
                 log_call d GetScreenshotAsPng w))
      else (Inr r, w))"

text \<open>Lines 137 and 138: the script, only when it is a non-empty string.\<close>

definition script_step :: "browser \<Rightarrow> driver \<Rightarrow> request \<Rightarrow> world \<Rightarrow> py_exception option \<times> world" where
  "script_step b d r w =
     (case script r of
        None \<Rightarrow> (None, w)
      | Some s \<Rightarrow>
          (if s = [] then (None, w)
           else (on_execute_script b, log_call d (ExecuteScript s) w)))"

text \<open>
  The body of the second \<^verbatim>\<open>try\<close> (lines 119 to 150), up to the first exception. The
  request comes back as the body left it: the metadata is written before the later calls.
\<close>

definition drive ::
  "browser \<Rightarrow> driver \<Rightarrow> request \<Rightarrow> world \<Rightarrow> (py_exception + response) \<times> request \<times> world" where
  "drive b d r w =
     (let w1 = log_call d (Get (url r)) w
      in (case on_get b of
            Some e \<Rightarrow> (Inl e, r, w1)
          | None \<Rightarrow>
      (case add_cookies b d (cookies r) w1 of
         (Some e, w2) \<Rightarrow> (Inl e, r, w2)
       | (None, w2) \<Rightarrow>
      (case wait_step b d r w2 of
         (Some e, w3) \<Rightarrow> (Inl e, r, w3)
       | (None, w3) \<Rightarrow>
      (case screenshot_step b d r w3 of
         (Inl e, w4) \<Rightarrow> (Inl e, r, w4)
       | (Inr r4, w4) \<Rightarrow>
      (case script_step b d r4 w4 of
         (Some e, w5) \<Rightarrow> (Inl e, r4, w5)
       | (None, w5) \<Rightarrow>
      (case on_page_source b of
         Inl e \<Rightarrow> (Inl e, r4, log_call d PageSource w5)
       | Inr src \<Rightarrow>
      (let r7 = r4\<lparr>meta := (meta r4)(''driver'' \<mapsto> MDriver d)\<rparr>;
           w7 = log_call d CurrentUrl (log_call d PageSource w5)
       in (case on_current_url b of
             Inl e \<Rightarrow> (Inl e, r7, w7)
           | Inr u \<Rightarrow>
               (Inr \<lparr>response_url = u, body = str_encode src, encoding = ''utf-8'',
                     response_request = r7\<rparr>, r7, w7))))))))))"

subsection \<open>Processing a request\<close>

text \<open>
  The names bound in the module: the imports of lines 1 to 10 and the two classes. A name
  that is neither here nor a builtin raises \<^verbatim>\<open>NameError\<close> when it is evaluated.
\<close>

definition module_globals :: "string list" where
  "module_globals =
     [''import_module'', ''WebDriverWait'', ''webdriver'', ''HtmlResponse'',
      ''NotConfigured'', ''signals'', ''UserAgentMiddleware'', ''random'', ''Queue'',
      ''SeleniumRequest'', ''SeleniumMiddleware'', ''MyUserAgentMiddleware'']"

text \<open>
  The handler of the first \<^verbatim>\<open>try\<close> (lines 114 to 116), reached with the exception
  of \<^verbatim>\<open>get\<close>: Python evaluates the name \<^verbatim>\<open>Empty\<close> to match the exception, then the
  handler's body evaluates \<^verbatim>\<open>logging\<close> and returns \<^verbatim>\<open>None\<close>.
\<close>

definition except_Empty :: "py_exception \<Rightarrow> response option outcome" where
  "except_Empty e =
     (if ''Empty'' \<notin> set module_globals then Raised (NameError ''Empty'')
      else if e \<noteq> Empty then Raised e
      else if ''logging'' \<notin> set module_globals then Raised (NameError ''logging'')
      else Returned None)"

text \<open>
  The handler of the second \<^verbatim>\<open>try\<close> up to its \<^verbatim>\<open>raise\<close> (lines 152 and 153):
  quit the driver, create a new one and put it in the queue. \<open>Returned ()\<close> means the
  \<^verbatim>\<open>raise\<close> is reached.
\<close>

definition replace_driver :: "driver \<Rightarrow> middleware \<Rightarrow> world \<Rightarrow> unit outcome \<times> middleware \<times> world" where
  "replace_driver d m w =
     (case create_driver m (quit d w) of
        (Inl e, w') \<Rightarrow> (Raised e, m, w')
      | (Inr n, w') \<Rightarrow>
          (case put_driver n m of
             None \<Rightarrow> (Blocked, m, w')
           | Some m' \<Rightarrow> (Returned (), m', w')))"

text \<open>
  The \<^verbatim>\<open>finally\<close> clause (lines 155 and 156): put the driver of this request in the
  queue, then go on with the pending result (the response, or the exception).
\<close>

definition finally_put :: "driver \<Rightarrow> 'a outcome \<Rightarrow> middleware \<Rightarrow> 'a outcome \<times> middleware" where
  "finally_put d out m =
     (case put_driver d m of
        None \<Rightarrow> (Blocked, m)
      | Some m' \<Rightarrow> (out, m'))"

text \<open>\<^verbatim>\<open>process_request\<close> (lines 106 to 156).\<close>

definition process_request ::
  "middleware \<Rightarrow> browser \<Rightarrow> request \<Rightarrow> world
     \<Rightarrow> response option outcome \<times> request \<times> middleware \<times> world" where
  "process_request m b r w =
     (if \<not> is_selenium r then (Returned None, r, m, w)
      else
        (case get_driver m of
           (Blocked, m1) \<Rightarrow> (Blocked, r, m1, w)
         | (Raised e, m1) \<Rightarrow> (except_Empty e, r, m1, w)
         | (Returned d, m1) \<Rightarrow>
             (case drive b d r w of
                (Inr resp, r', w') \<Rightarrow>
                  (case finally_put d (Returned (Some resp)) m1 of
                     (out, m2) \<Rightarrow> (out, r', m2, w'))
              | (Inl e, r', w') \<Rightarrow>
                  (case replace_driver d m1 w' of
                     (Blocked, m2, w2) \<Rightarrow> (Blocked, r', m2, w2)
                   | (Raised e2, m2, w2) \<Rightarrow>
                       (case finally_put d (Raised e2) m2 of
                          (out, m3) \<Rightarrow> (out, r', m3, w2))
                   | (Returned u, m2, w2) \<Rightarrow>
                       (case finally_put d (Raised e) m2 of
                          (out, m3) \<Rightarrow> (out, r', m3, w2))))))"

subsection \<open>Closing the spider\<close>

text \<open>
  \<^verbatim>\<open>spider_closed\<close> (lines 158 to 163): while the queue is not empty, take its next
  driver (a \<^verbatim>\<open>get()\<close> on a queue that has an item returns it at once) and quit it. Every
  item of the queue is a driver object, so the test \<^verbatim>\<open>driver is not None\<close> holds.
\<close>

function spider_closed :: "middleware \<Rightarrow> world \<Rightarrow> middleware \<times> world" where
  "spider_closed m w =
     (case driver_pool m of
        [] \<Rightarrow> (m, w)
      | d # q \<Rightarrow> spider_closed (m\<lparr>driver_pool := q\<rparr>) (quit d w))"
  by pat_completeness auto
termination
  by (relation "measure (\<lambda>(m, w). length (driver_pool m))") auto

declare spider_closed.simps [simp del]

subsection \<open>The pool seen by its callers\<close>

text \<open>
  The pool's operations as the code performs them, with the bookkeeping of who holds what:
  \<open>held\<close> lists the drivers that callers have got from the queue and not put back yet.
  \<open>Acquire\<close> is the \<^verbatim>\<open>get\<close> of line 113; \<open>Release d\<close> the \<^verbatim>\<open>put\<close> of line 156
  after a request that succeeded; \<open>Replace d\<close> lines 152 to 156 after one that failed;
  \<open>Shutdown\<close> is \<^verbatim>\<open>spider_closed\<close>. An operation that waits on the queue stays
  where it is: the caller still holds its driver.
\<close>

record system =
  mw :: middleware
  env :: world
  held :: "driver list"

datatype pool_op = Acquire | Release driver | Replace driver | Shutdown

fun pool_step :: "pool_op \<Rightarrow> system \<Rightarrow> system" where
  "pool_step Acquire s =
     (case get_driver (mw s) of
        (Returned d, m') \<Rightarrow> s\<lparr>mw := m', held := held s @ [d]\<rparr>
      | (Raised e, m') \<Rightarrow> s
      | (Blocked, m') \<Rightarrow> s)"
| "pool_step (Release d) s =
     (if d \<notin> set (held s) then s
      else
        (case put_driver d (mw s) of
           None \<Rightarrow> s
         | Some m' \<Rightarrow> s\<lparr>mw := m', held := remove1 d (held s)\<rparr>))"
| "pool_step (Replace d) s =
     (if d \<notin> set (held s) then s
      else
        (case replace_driver d (mw s) (env s) of
           (Blocked, m', w') \<Rightarrow> s\<lparr>mw := m', env := w'\<rparr>
         | (out, m', w') \<Rightarrow>
             (case put_driver d m' of
                None \<Rightarrow> s\<lparr>mw := m', env := w'\<rparr>
              | Some m2 \<Rightarrow> s\<lparr>mw := m2, env := w', held := remove1 d (held s)\<rparr>)))"
| "pool_step Shutdown s =
     (case spider_closed (mw s) (env s) of
        (m', w') \<Rightarrow> s\<lparr>mw := m', env := w'\<rparr>)"

definition run :: "pool_op list \<Rightarrow> system \<Rightarrow> system" where
  "run ops s = fold pool_step ops s"

definition is_Replace :: "pool_op \<Rightarrow> bool" where
  "is_Replace op = (case op of Replace d \<Rightarrow> True | _ \<Rightarrow> False)"

text \<open>
  A shutdown that other callers interleave with: \<open>Drain\<close> is one pass of the loop of
  \<^verbatim>\<open>spider_closed\<close> (lines 160 to 163: if the queue has an item, take the next one and
  quit it), \<open>Caller op\<close> an operation of a caller in between. \<open>other_caller d\<close> holds
  for the events that are not of the caller holding \<open>d\<close> (who neither releases nor
  replaces \<open>d\<close> meanwhile); a replacement by another caller is left out.
\<close>

datatype drain_event = Drain | Caller pool_op

fun drain_step :: "drain_event \<Rightarrow> system \<Rightarrow> system" where
  "drain_step Drain s =
     (case driver_pool (mw s) of
        [] \<Rightarrow> s
      | x # q \<Rightarrow> s\<lparr>mw := (mw s)\<lparr>driver_pool := q\<rparr>, env := quit x (env s)\<rparr>)"
| "drain_step (Caller op) s = pool_step op s"

definition other_caller :: "driver \<Rightarrow> drain_event \<Rightarrow> bool" where
  "other_caller d e =
     (case e of
        Drain \<Rightarrow> True
      | Caller Acquire \<Rightarrow> True
      | Caller (Release x) \<Rightarrow> x \<noteq> d
      | Caller (Replace x) \<Rightarrow> False
      | Caller Shutdown \<Rightarrow> True)"

subsection \<open>A concrete setting\<close>

text \<open>
  A world with the chrome and firefox packages and webdriver-manager installed, in which
  every session starts; a middleware for chrome with a local driver executable and room
  for two drivers; a request that uses every step; a browser that answers every call.
\<close>

definition example_world :: world where
  "example_world =
     \<lparr>importable = [''chrome'', ''firefox''], manager_installed = True,
      start_fails = (\<lambda>n. False), started = [], quit_calls = [], calls = []\<rparr>"

definition example_middleware :: middleware where
  "example_middleware =
     \<lparr>driver_name = ''chrome'', driver_executable_path = Some ''/usr/bin/chromedriver'',
      browser_executable_path = None, command_executor = None,
      driver_arguments = Some [''--headless''], pool_size = 2, queue_timeout = Some 300,
      driver_pool = []\<rparr>"

definition example_request :: request where
  "example_request =
     \<lparr>is_selenium = True, url = ''http://a'', cookies = [(''k'', ''v'')], wait_time = Some 5,
      wait_until = Some ''cond'', screenshot = True, script = Some ''s()'',
      meta = Map.empty\<rparr>"

definition example_browser :: browser where
  "example_browser =
     \<lparr>on_get = None, on_add_cookie = (\<lambda>n. None), on_wait = None,
      on_screenshot = Inr ''PNG'', on_execute_script = None,
      on_page_source = Inr ''<html>'', on_current_url = Inr ''http://b''\<rparr>"

text \<open>The launch of the example middleware, and the world after two of them.\<close>

definition example_launch :: launch where
  "example_launch =
     LocalDriver ''chrome'' ''/usr/bin/chromedriver''
       \<lparr>binary_location = None, arguments = [''--headless'']\<rparr>"

definition example_world2 :: world where
  "example_world2 = example_world\<lparr>started := [example_launch, example_launch]\<rparr>"

text \<open>The pool of the example middleware after the constructor, nothing held.\<close>

definition example_system :: system where
  "example_system =
     \<lparr>mw = example_middleware\<lparr>driver_pool := [0, 1]\<rparr>, env = example_world2, held = []\<rparr>"

text \<open>The same pool after one caller has taken driver 0.\<close>

definition example_held :: system where
  "example_held =
     \<lparr>mw = example_middleware\<lparr>driver_pool := [1]\<rparr>, env = example_world2, held = [0]\<rparr>"

subsection \<open>Conditions on the input\<close>

text \<open>
  The configurations and worlds in which \<^verbatim>\<open>create_driver\<close> gets as far as starting a
  session: the modules of the kind import, the arguments are a list without an empty
  string, and a driver executable or a command executor is set, or else webdriver-manager
  imports and the kind is chrome.
\<close>

definition provisionable :: "middleware \<Rightarrow> world \<Rightarrow> bool" where
  "provisionable m w =
     (driver_name m \<in> set (importable w)
      \<and> (case driver_arguments m of None \<Rightarrow> False | Some args \<Rightarrow> [] \<notin> set args)
      \<and> (driver_executable_path m \<noteq> None \<or> command_executor m \<noteq> None
          \<or> (manager_installed w \<and> lower (driver_name m) = ''chrome'')))"

section \<open>Properties\<close>

subsection \<open>Auxiliary facts\<close>

lemmas example_defs =
  example_world_def example_middleware_def example_request_def example_browser_def
  example_launch_def example_world2_def

lemmas eval_defs =
  process_request_def get_driver_def queue_get_def put_driver_def queue_put_def
  queue_full_def drive_def wait_step_def screenshot_step_def script_step_def
  log_call_def replace_driver_def finally_put_def create_driver_def start_session_def
  quit_def add_argument_def truthy_def str_encode_def except_Empty_def module_globals_def
  lower_def char_lower_def Let_def

lemma add_arguments_ok:
  assumes "[] \<notin> set args"
  shows "add_arguments args opts = Inr (opts\<lparr>arguments := arguments opts @ args\<rparr>)"
  using assms by (induction args arbitrary: opts) (auto simp add: add_argument_def)

lemma add_arguments_empty:
  assumes "[] \<in> set args"
  shows "add_arguments args opts = Inl (ValueError ''argument can not be null'')"
  using assms
  by (induction args arbitrary: opts) (auto simp add: add_argument_def)

lemma start_session_cases:
  "start_session l w =
     (if start_fails w (length (started w))
      then (Inl (WebDriverException ''session not created''), w\<lparr>started := started w @ [l]\<rparr>)
      else (Inr (length (started w)), w\<lparr>started := started w @ [l]\<rparr>))"
  by (simp add: start_session_def Let_def)

lemma create_driver_pool: "create_driver (m\<lparr>driver_pool := q\<rparr>) w = create_driver m w"
  by (simp add: create_driver_def split: option.splits sum.splits)

lemma spider_closed_eq:
  "spider_closed m w =
     (m\<lparr>driver_pool := []\<rparr>, w\<lparr>quit_calls := quit_calls w @ driver_pool m\<rparr>)"
proof (induction "driver_pool m" arbitrary: m w)
  case Nil
  then have "driver_pool m = []" by simp
  then show ?case by (subst spider_closed.simps) simp
next
  case (Cons d q)
  from Cons.hyps(2) have dq: "driver_pool m = d # q" by simp
  have "spider_closed m w = spider_closed (m\<lparr>driver_pool := q\<rparr>) (quit d w)"
    by (subst spider_closed.simps) (simp add: dq)
  also have "\<dots> = (m\<lparr>driver_pool := []\<rparr>, w\<lparr>quit_calls := quit_calls w @ driver_pool m\<rparr>)"
    using Cons.hyps(1) [of "m\<lparr>driver_pool := q\<rparr>" "quit d w"] by (simp add: dq quit_def)
  finally show ?case .
qed

lemmas pool_eval =
  run_def example_system_def is_Replace_def spider_closed_eq

lemma create_driver_Inr:
  assumes "create_driver m w = (Inr d, w')"
  shows "d = length (started w) \<and> \<not> start_fails w (length (started w))
       \<and> length (started w') = Suc (length (started w))
       \<and> start_fails w' = start_fails w \<and> quit_calls w' = quit_calls w
       \<and> importable w' = importable w \<and> manager_installed w' = manager_installed w
       \<and> (\<exists>l. w' = w\<lparr>started := started w @ [l]\<rparr>)"
  using assms
  by (auto simp add: create_driver_def start_session_cases
      split: if_splits option.splits sum.splits)

lemma create_driver_quit_calls: "quit_calls (snd (create_driver m w)) = quit_calls w"
  by (auto simp add: create_driver_def start_session_cases
      split: if_splits option.splits sum.splits)

lemma create_driver_calls: "calls (snd (create_driver m w)) = calls w"
  by (auto simp add: create_driver_def start_session_cases
      split: if_splits option.splits sum.splits)

lemma create_driver_provisionable:
  assumes "provisionable m w"
  shows "\<exists>l. create_driver m w = start_session l w"
  using assms
  by (auto simp add: provisionable_def create_driver_def add_arguments_ok lower_def
      split: if_splits option.splits)

lemma create_driver_starts:
  assumes "provisionable m w" and "\<not> start_fails w (length (started w))"
  shows "\<exists>w'. create_driver m w = (Inr (length (started w)), w')"
  using create_driver_provisionable [OF assms(1)] assms(2)
  by (auto simp add: start_session_cases)

lemma create_driver_start_fails:
  assumes "provisionable m w" and "start_fails w (length (started w))"
  shows "\<exists>w'. create_driver m w = (Inl (WebDriverException ''session not created''), w')
           \<and> length (started w') = Suc (length (started w))"
  using create_driver_provisionable [OF assms(1)] assms(2)
  by (auto simp add: start_session_cases)

lemma create_driver_not_provisionable:
  assumes "\<not> provisionable m w"
  shows "\<exists>e. create_driver m w = (Inl e, w)"
proof (cases "driver_name m \<in> set (importable w)")
  case False
  then show ?thesis by (simp add: create_driver_def)
next
  case True
  show ?thesis
  proof (cases "driver_arguments m")
    case None
    with True show ?thesis by (simp add: create_driver_def)
  next
    case (Some args)
    show ?thesis
    proof (cases "[] \<in> set args")
      case True
      with \<open>driver_name m \<in> set (importable w)\<close> Some show ?thesis
        by (simp add: create_driver_def add_arguments_empty)
    next
      case False
      with assms True Some have "driver_executable_path m = None" "command_executor m = None"
        "\<not> (manager_installed w \<and> lower (driver_name m) = ''chrome'')"
        by (simp_all add: provisionable_def)
      with True Some False show ?thesis
        by (auto simp add: create_driver_def add_arguments_ok)
    qed
  qed
qed

lemma put_driver_room:
  assumes "pool_size m \<le> 0 \<or> int (length (driver_pool m)) < pool_size m"
  shows "put_driver d m = Some (m\<lparr>driver_pool := driver_pool m @ [d]\<rparr>)"
  using assms by (auto simp add: put_driver_def queue_put_def queue_full_def)

lemma provisionable_cong:
  assumes "importable w' = importable w" "manager_installed w' = manager_installed w"
  shows "provisionable (m\<lparr>driver_pool := q\<rparr>) w' = provisionable m w"
  using assms by (simp add: provisionable_def)

lemma fill_pool_Returned:
  assumes "fill_pool k m w = (Returned m', w')"
  shows "m' = m\<lparr>driver_pool := driver_pool m @ [length (started w) ..< length (started w) + k]\<rparr>
       \<and> length (started w') = length (started w) + k"
  using assms
proof (induction k arbitrary: m w)
  case 0
  then show ?case by simp
next
  case (Suc k)
  obtain r w1 where cd: "create_driver m w = (r, w1)" by (cases "create_driver m w")
  with Suc.prems obtain d where r: "r = Inr d" by (cases r) auto
  from cd r have facts: "d = length (started w)" "length (started w1) = Suc (length (started w))"
    using create_driver_Inr by blast+
  from Suc.prems cd r obtain m1 where put: "put_driver d m = Some m1"
    and rest: "fill_pool k m1 w1 = (Returned m', w')"
    by (auto split: option.splits)
  from put have m1: "m1 = m\<lparr>driver_pool := driver_pool m @ [d]\<rparr>"
    by (auto simp add: put_driver_def queue_put_def split: if_splits)
  from Suc.IH [OF rest] show ?case
    by (simp add: m1 facts upt_rec [of "length (started w)"])
qed

lemma fill_pool_quit_calls: "quit_calls (snd (fill_pool k m w)) = quit_calls w"
proof (induction k arbitrary: m w)
  case 0
  then show ?case by simp
next
  case (Suc k)
  obtain r w1 where cd: "create_driver m w = (r, w1)" by (cases "create_driver m w")
  then have q: "quit_calls w1 = quit_calls w"
    using create_driver_quit_calls [of m w] by simp
  show ?case
    using Suc.IH q by (simp add: cd split: sum.splits option.splits)
qed

lemma fill_pool_not_Blocked:
  assumes "pool_size m \<le> 0 \<or> int (length (driver_pool m) + k) \<le> pool_size m"
  shows "fst (fill_pool k m w) \<noteq> Blocked"
  using assms
proof (induction k arbitrary: m w)
  case 0
  then show ?case by simp
next
  case (Suc k)
  obtain r w1 where cd: "create_driver m w = (r, w1)" by (cases "create_driver m w")
  show ?case
  proof (cases r)
    case (Inl e)
    then show ?thesis by (simp add: cd)
  next
    case (Inr d)
    have put: "put_driver d m = Some (m\<lparr>driver_pool := driver_pool m @ [d]\<rparr>)"
      using Suc.prems by (intro put_driver_room) auto
    have "fst (fill_pool k (m\<lparr>driver_pool := driver_pool m @ [d]\<rparr>) w1) \<noteq> Blocked"
      using Suc.prems by (intro Suc.IH) auto
    then show ?thesis by (simp add: cd Inr put)
  qed
qed

lemma fill_pool_succeeds:
  assumes "provisionable m w"
    and "\<forall>j<k. \<not> start_fails w (length (started w) + j)"
    and "pool_size m \<le> 0 \<or> int (length (driver_pool m) + k) \<le> pool_size m"
  shows "\<exists>m' w'. fill_pool k m w = (Returned m', w')"
  using assms
proof (induction k arbitrary: m w)
  case 0
  then show ?case by simp
next
  case (Suc k)
  from Suc.prems(2) have nf: "\<not> start_fails w (length (started w))" by force
  from create_driver_starts [OF Suc.prems(1) nf]
  obtain w1 where cd: "create_driver m w = (Inr (length (started w)), w1)" by blast
  from create_driver_Inr [OF cd] have facts:
    "length (started w1) = Suc (length (started w))" "start_fails w1 = start_fails w"
    "importable w1 = importable w" "manager_installed w1 = manager_installed w"
    by blast+
  let ?m1 = "m\<lparr>driver_pool := driver_pool m @ [length (started w)]\<rparr>"
  have put: "put_driver (length (started w)) m = Some ?m1"
    using Suc.prems(3) by (intro put_driver_room) auto
  have "\<exists>m' w'. fill_pool k ?m1 w1 = (Returned m', w')"
  proof (rule Suc.IH)
    show "provisionable ?m1 w1"
      using Suc.prems(1) facts by (simp add: provisionable_cong)
    show "\<forall>j<k. \<not> start_fails w1 (length (started w1) + j)"
      using Suc.prems(2) facts by (auto dest: spec [of _ "Suc _"])
    show "pool_size ?m1 \<le> 0 \<or> int (length (driver_pool ?m1) + k) \<le> pool_size ?m1"
      using Suc.prems(3) by auto
  qed
  then show ?case by (simp add: cd put)
qed

lemma fill_pool_Raised:
  assumes "fill_pool k m w = (Raised e, w')"
  shows "\<exists>ls. length ls < k \<and> create_driver m (w\<lparr>started := started w @ ls\<rparr>) = (Inl e, w')"
  using assms
proof (induction k arbitrary: m w)
  case 0
  then show ?case by simp
next
  case (Suc k)
  obtain r w1 where cd: "create_driver m w = (r, w1)" by (cases "create_driver m w")
  show ?case
  proof (cases r)
    case (Inl e1)
    with Suc.prems cd have "create_driver m (w\<lparr>started := started w @ []\<rparr>) = (Inl e, w')"
      by simp
    then show ?thesis by (intro exI [of _ "[]"]) simp
  next
    case (Inr d)
    from create_driver_Inr [OF cd [unfolded Inr]]
    obtain l where w1: "w1 = w\<lparr>started := started w @ [l]\<rparr>" by blast
    from Suc.prems cd Inr obtain m1 where put: "put_driver d m = Some m1"
      and rest: "fill_pool k m1 w1 = (Raised e, w')"
      by (auto split: option.splits)
    from put have m1: "m1 = m\<lparr>driver_pool := driver_pool m @ [d]\<rparr>"
      by (auto simp add: put_driver_def queue_put_def split: if_splits)
    from Suc.IH [OF rest] obtain ls where ls: "length ls < k"
      "create_driver m1 (w1\<lparr>started := started w1 @ ls\<rparr>) = (Inl e, w')"
      by blast
    from ls(2) have "create_driver m (w\<lparr>started := started w @ (l # ls)\<rparr>) = (Inl e, w')"
      by (simp add: m1 w1 create_driver_pool)
    with ls(1) show ?thesis by (intro exI [of _ "l # ls"]) simp
  qed
qed

lemma fill_pool_first_failure:
  assumes "provisionable m w"
    and "j < k" and "start_fails w (length (started w) + j)"
    and "\<forall>i<j. \<not> start_fails w (length (started w) + i)"
    and "pool_size m \<le> 0 \<or> int (length (driver_pool m) + k) \<le> pool_size m"
  shows "fst (fill_pool k m w) = Raised (WebDriverException ''session not created'')
       \<and> length (started (snd (fill_pool k m w))) = length (started w) + j + 1"
  using assms
proof (induction k arbitrary: j m w)
  case 0
  then show ?case by simp
next
  case (Suc k)
  show ?case
  proof (cases j)
    case 0
    with Suc.prems(3) have "start_fails w (length (started w))" by simp
    from create_driver_start_fails [OF Suc.prems(1) this] show ?thesis
      by (auto simp add: 0)
  next
    case (Suc j')
    with Suc.prems(4) have nf: "\<not> start_fails w (length (started w))" by force
    from create_driver_starts [OF Suc.prems(1) nf]
    obtain w1 where cd: "create_driver m w = (Inr (length (started w)), w1)" by blast
    from create_driver_Inr [OF cd] have facts:
      "length (started w1) = Suc (length (started w))" "start_fails w1 = start_fails w"
      "importable w1 = importable w" "manager_installed w1 = manager_installed w"
      by blast+
    let ?m1 = "m\<lparr>driver_pool := driver_pool m @ [length (started w)]\<rparr>"
    have put: "put_driver (length (started w)) m = Some ?m1"
      using Suc.prems(5) by (intro put_driver_room) auto
    have "fst (fill_pool k ?m1 w1) = Raised (WebDriverException ''session not created'')
       \<and> length (started (snd (fill_pool k ?m1 w1))) = length (started w1) + j' + 1"
    proof (rule Suc.IH)
      show "provisionable ?m1 w1"
        using Suc.prems(1) facts by (simp add: provisionable_cong)
      show "j' < k" using Suc.prems(2) Suc by simp
      show "start_fails w1 (length (started w1) + j')"
        using Suc.prems(3) Suc facts by simp
      show "\<forall>i<j'. \<not> start_fails w1 (length (started w1) + i)"
        using Suc.prems(4) Suc facts by (auto dest: spec [of _ "Suc _"])
      show "pool_size ?m1 \<le> 0 \<or> int (length (driver_pool ?m1) + k) \<le> pool_size ?m1"
        using Suc.prems(5) by auto
    qed
    then show ?thesis by (simp add: cd put facts Suc)
  qed
qed

lemma init_example:
  "init example_middleware example_world
     = (Returned (example_middleware\<lparr>driver_pool := [0, 1]\<rparr>), example_world2)"
  by (simp add: init_def eval_defs example_defs numeral_2_eq_2)

lemma get_driver_cases:
  "get_driver m = (Returned d, m') \<Longrightarrow> \<exists>q. driver_pool m = d # q \<and> m' = m\<lparr>driver_pool := q\<rparr>"
  by (auto simp add: get_driver_def queue_get_def split: option.splits if_splits list.splits)

lemma get_driver_head:
  assumes "driver_pool m = d # q" and "\<forall>t. queue_timeout m = Some t \<longrightarrow> 0 \<le> t"
  shows "get_driver m = (Returned d, m\<lparr>driver_pool := q\<rparr>)"
  using assms by (cases "queue_timeout m") (auto simp add: get_driver_def queue_get_def)

lemma pool_step_le:
  assumes "\<not> is_Replace op"
    and "distinct (held s @ driver_pool (mw s))"
    and "int (length (held s) + length (driver_pool (mw s))) \<le> pool_size (mw s)"
  shows "distinct (held (pool_step op s) @ driver_pool (mw (pool_step op s)))
       \<and> int (length (held (pool_step op s)) + length (driver_pool (mw (pool_step op s))))
           \<le> pool_size (mw (pool_step op s))
       \<and> pool_size (mw (pool_step op s)) = pool_size (mw s)"
proof (cases op)
  case Acquire
  obtain out m' where g: "get_driver (mw s) = (out, m')" by (cases "get_driver (mw s)")
  show ?thesis
  proof (cases out)
    case (Returned d)
    from get_driver_cases [OF g [unfolded Returned]]
    obtain q where "driver_pool (mw s) = d # q" "m' = (mw s)\<lparr>driver_pool := q\<rparr>"
      by blast
    then show ?thesis using assms by (auto simp add: Acquire g Returned)
  qed (use assms in \<open>simp_all add: Acquire g\<close>)
next
  case (Release d)
  show ?thesis
  proof (cases "d \<in> set (held s)")
    case True
    then have "length (held s) > 0" by (cases "held s") auto
    with assms(3) have room: "pool_size (mw s) \<le> 0 \<or> int (length (driver_pool (mw s))) < pool_size (mw s)"
      by linarith
    have len: "length (held s) = Suc (length (remove1 d (held s)))"
      using True \<open>length (held s) > 0\<close> by (simp add: length_remove1)
    have "distinct (remove1 d (held s) @ driver_pool (mw s) @ [d])"
      using assms(2) True by auto
    moreover have "int (length (remove1 d (held s)) + length (driver_pool (mw s) @ [d]))
        \<le> pool_size (mw s)"
      using assms(3) len by simp
    ultimately show ?thesis
      using True by (simp add: Release put_driver_room [OF room])
  qed (use assms in \<open>simp add: Release\<close>)
next
  case (Replace d)
  with assms(1) show ?thesis by (simp add: is_Replace_def)
next
  case Shutdown
  then show ?thesis using assms by (simp add: spider_closed_eq)
qed

lemma pool_step_eq:
  assumes "\<not> is_Replace op" and "op \<noteq> Shutdown"
    and "distinct (held s @ driver_pool (mw s))"
    and "int (length (held s) + length (driver_pool (mw s))) = pool_size (mw s)"
  shows "int (length (held (pool_step op s)) + length (driver_pool (mw (pool_step op s))))
           = pool_size (mw (pool_step op s))"
proof (cases op)
  case Acquire
  obtain out m' where g: "get_driver (mw s) = (out, m')" by (cases "get_driver (mw s)")
  show ?thesis
  proof (cases out)
    case (Returned d)
    from get_driver_cases [OF g [unfolded Returned]]
    obtain q where "driver_pool (mw s) = d # q" "m' = (mw s)\<lparr>driver_pool := q\<rparr>"
      by blast
    then show ?thesis using assms by (auto simp add: Acquire g Returned)
  qed (use assms in \<open>simp_all add: Acquire g\<close>)
next
  case (Release d)
  show ?thesis
  proof (cases "d \<in> set (held s)")
    case True
    then have "length (held s) > 0" by (cases "held s") auto
    with assms(4) have room: "pool_size (mw s) \<le> 0 \<or> int (length (driver_pool (mw s))) < pool_size (mw s)"
      by linarith
    have len: "length (held s) = Suc (length (remove1 d (held s)))"
      using True \<open>length (held s) > 0\<close> by (simp add: length_remove1)
    have "int (length (remove1 d (held s)) + length (driver_pool (mw s) @ [d]))
        = pool_size (mw s)"
      using assms(4) len by simp
    then show ?thesis
      using True by (simp add: Release put_driver_room [OF room])
  qed (use assms in \<open>simp add: Release\<close>)
next
  case (Replace d)
  with assms(1) show ?thesis by (simp add: is_Replace_def)
next
  case Shutdown
  with assms(2) show ?thesis by simp
qed

lemma run_le:
  assumes "\<forall>op\<in>set ops. \<not> is_Replace op"
    and "distinct (held s @ driver_pool (mw s))"
    and "int (length (held s) + length (driver_pool (mw s))) \<le> pool_size (mw s)"
  shows "distinct (held (run ops s) @ driver_pool (mw (run ops s)))
       \<and> int (length (held (run ops s)) + length (driver_pool (mw (run ops s))))
           \<le> pool_size (mw (run ops s))
       \<and> pool_size (mw (run ops s)) = pool_size (mw s)"
  using assms
proof (induction ops arbitrary: s)
  case Nil
  then show ?case by (simp add: run_def)
next
  case (Cons op ops)
  from Cons.prems have step: "distinct (held (pool_step op s) @ driver_pool (mw (pool_step op s)))
       \<and> int (length (held (pool_step op s)) + length (driver_pool (mw (pool_step op s))))
           \<le> pool_size (mw (pool_step op s))
       \<and> pool_size (mw (pool_step op s)) = pool_size (mw s)"
    by (intro pool_step_le) auto
  have "run (op # ops) s = run ops (pool_step op s)" by (simp add: run_def)
  with Cons.IH [of "pool_step op s"] Cons.prems(1) step show ?case by auto
qed

lemma run_eq:
  assumes "\<forall>op\<in>set ops. \<not> is_Replace op" and "Shutdown \<notin> set ops"
    and "distinct (held s @ driver_pool (mw s))"
    and "int (length (held s) + length (driver_pool (mw s))) = pool_size (mw s)"
  shows "int (length (held (run ops s)) + length (driver_pool (mw (run ops s))))
           = pool_size (mw (run ops s))"
  using assms
proof (induction ops arbitrary: s)
  case Nil
  then show ?case by (simp add: run_def)
next
  case (Cons op ops)
  from Cons.prems have le: "distinct (held (pool_step op s) @ driver_pool (mw (pool_step op s)))"
    using pool_step_le [of op s] by auto
  from Cons.prems have eq: "int (length (held (pool_step op s)) + length (driver_pool (mw (pool_step op s))))
           = pool_size (mw (pool_step op s))"
    by (intro pool_step_eq) auto
  have "run (op # ops) s = run ops (pool_step op s)" by (simp add: run_def)
  with Cons.IH [of "pool_step op s"] Cons.prems(1,2) le eq show ?case by auto
qed

lemma count_list_distinct:
  "distinct xs \<Longrightarrow> x \<in> set xs \<Longrightarrow> count_list xs x = 1"
  by (induction xs) auto

lemma count_list_notin: "x \<notin> set xs \<Longrightarrow> count_list xs x = 0"
  by (induction xs) auto

lemma drain_all:
  "fold drain_step (replicate (length (driver_pool (mw s))) Drain) s = pool_step Shutdown s"
proof (induction "driver_pool (mw s)" arbitrary: s)
  case Nil
  then have "driver_pool (mw s) = []" by simp
  then show ?case by (simp add: spider_closed_eq)
next
  case (Cons x q)
  from Cons.hyps(2) have xq: "driver_pool (mw s) = x # q" by simp
  let ?s = "s\<lparr>mw := (mw s)\<lparr>driver_pool := q\<rparr>, env := quit x (env s)\<rparr>"
  have "fold drain_step (replicate (length (driver_pool (mw s))) Drain) s
      = fold drain_step (replicate (length (driver_pool (mw ?s))) Drain) ?s"
    by (simp add: xq)
  also have "\<dots> = pool_step Shutdown ?s"
    by (rule Cons.hyps(1)) simp
  also have "\<dots> = pool_step Shutdown s"
    by (simp add: spider_closed_eq xq quit_def)
  finally show ?case .
qed

lemma drain_step_spares:
  assumes "other_caller d e" and "d \<in> set (held s)" and "d \<notin> set (driver_pool (mw s))"
  shows "d \<in> set (held (drain_step e s)) \<and> d \<notin> set (driver_pool (mw (drain_step e s)))
       \<and> count_list (quit_calls (env (drain_step e s))) d = count_list (quit_calls (env s)) d"
proof (cases e)
  case Drain
  show ?thesis
  proof (cases "driver_pool (mw s)")
    case Nil
    then show ?thesis using assms by (simp add: Drain)
  next
    case (Cons x q)
    with assms(3) have "x \<noteq> d" "d \<notin> set q" by auto
    then show ?thesis using assms(2) by (simp add: Drain Cons quit_def)
  qed
next
  case (Caller op)
  show ?thesis
  proof (cases op)
    case Acquire
    obtain out m' where g: "get_driver (mw s) = (out, m')" by (cases "get_driver (mw s)")
    show ?thesis
    proof (cases out)
      case (Returned x)
      from get_driver_cases [OF g [unfolded Returned]]
      obtain q where "driver_pool (mw s) = x # q" "m' = (mw s)\<lparr>driver_pool := q\<rparr>" by blast
      then show ?thesis using assms by (auto simp add: Caller Acquire g Returned)
    qed (use assms in \<open>simp_all add: Caller Acquire g\<close>)
  next
    case (Release x)
    with assms(1) Caller have ne: "x \<noteq> d" by (simp add: other_caller_def)
    show ?thesis
      using assms(2,3) ne
      by (auto simp add: Caller Release put_driver_def queue_put_def split: if_splits)
  next
    case (Replace x)
    with assms(1) Caller show ?thesis by (simp add: other_caller_def)
  next
    case Shutdown
    then show ?thesis using assms(2,3) by (simp add: Caller spider_closed_eq count_list_notin)
  qed
qed

lemma drain_run_spares:
  assumes "\<forall>e\<in>set evs. other_caller d e" and "d \<in> set (held s)"
    and "d \<notin> set (driver_pool (mw s))"
  shows "d \<in> set (held (fold drain_step evs s))
       \<and> d \<notin> set (driver_pool (mw (fold drain_step evs s)))
       \<and> count_list (quit_calls (env (fold drain_step evs s))) d
           = count_list (quit_calls (env s)) d"
  using assms
proof (induction evs arbitrary: s)
  case Nil
  then show ?case by simp
next
  case (Cons e evs)
  from Cons.prems have st: "d \<in> set (held (drain_step e s))
       \<and> d \<notin> set (driver_pool (mw (drain_step e s)))
       \<and> count_list (quit_calls (env (drain_step e s))) d = count_list (quit_calls (env s)) d"
    by (intro drain_step_spares) auto
  with Cons.IH [of "drain_step e s"] Cons.prems(1) show ?case by auto
qed

lemma add_cookies_ok:
  assumes "\<forall>(n, v)\<in>set cs. on_add_cookie b n = None"
  shows "add_cookies b d cs w
       = (None, w\<lparr>calls := calls w @ map (Pair d) (map (\<lambda>(n, v). AddCookie n v) cs)\<rparr>)"
  using assms
  by (induction cs arbitrary: w) (auto simp add: log_call_def)

lemma drive_frame:
  "fst (snd (drive b d r w)) = r\<lparr>meta := meta (fst (snd (drive b d r w)))\<rparr>
   \<and> (\<forall>k. k \<noteq> ''screenshot'' \<and> k \<noteq> ''driver'' \<longrightarrow>
         meta (fst (snd (drive b d r w))) k = meta r k)"
  by (simp add: drive_def screenshot_step_def Let_def
      split: option.splits prod.splits sum.splits)

lemma process_request_frame:
  "fst (snd (process_request m b r w))
     = r\<lparr>meta := meta (fst (snd (process_request m b r w)))\<rparr>
   \<and> (\<forall>k. k \<noteq> ''screenshot'' \<and> k \<noteq> ''driver'' \<longrightarrow>
         meta (fst (snd (process_request m b r w))) k = meta r k)"
proof (cases "is_selenium r")
  case False
  then show ?thesis by (simp add: process_request_def)
next
  case True
  obtain out m1 where g: "get_driver m = (out, m1)" by (cases "get_driver m")
  show ?thesis
  proof (cases out)
    case (Returned d)
    obtain res r' w' where dr: "drive b d r w = (res, r', w')" by (cases "drive b d r w")
    have "fst (snd (process_request m b r w)) = r'"
      by (simp add: process_request_def True g Returned dr
          split: sum.splits prod.splits outcome.splits)
    with drive_frame [of b d r w] dr show ?thesis by simp
  qed (simp_all add: process_request_def True g)
qed

lemma add_cookies_calls_only: "\<exists>x cs. add_cookies b d cookie_list w = (x, w\<lparr>calls := cs\<rparr>)"
proof (induction cookie_list arbitrary: w)
  case Nil
  have "w = w\<lparr>calls := calls w\<rparr>" by simp
  then show ?case by (metis add_cookies.simps(1))
next
  case (Cons nv cookie_list)
  obtain n v where nv: "nv = (n, v)" by (cases nv)
  from Cons [of "log_call d (AddCookie n v) w"]
  obtain x cs where "add_cookies b d cookie_list (log_call d (AddCookie n v) w)
      = (x, (log_call d (AddCookie n v) w)\<lparr>calls := cs\<rparr>)"
    by blast
  then show ?case
    by (cases "on_add_cookie b n") (auto simp add: nv log_call_def)
qed

lemma wait_step_calls_only: "\<exists>x cs. wait_step b d r w = (x, w\<lparr>calls := cs\<rparr>)"
proof -
  have "w = w\<lparr>calls := calls w\<rparr>" by simp
  then show ?thesis
    by (cases "wait_until r"; cases "wait_time r")
      (auto simp add: wait_step_def log_call_def intro: exI [of _ "calls w"])
qed

lemma screenshot_step_calls_only:
  "\<exists>x cs. screenshot_step b d r w = (x, w\<lparr>calls := cs\<rparr>)"
proof -
  have "w = w\<lparr>calls := calls w\<rparr>" by simp
  then show ?thesis
    by (cases "screenshot r"; cases "on_screenshot b")
      (auto simp add: screenshot_step_def log_call_def intro: exI [of _ "calls w"])
qed

lemma script_step_calls_only: "\<exists>x cs. script_step b d r w = (x, w\<lparr>calls := cs\<rparr>)"
proof -
  have "w = w\<lparr>calls := calls w\<rparr>" by simp
  then show ?thesis
    by (cases "script r")
      (auto simp add: script_step_def log_call_def intro: exI [of _ "calls w"])
qed

lemma drive_calls_only: "\<exists>cs. snd (snd (drive b d r w)) = w\<lparr>calls := cs\<rparr>"
proof -
  let ?w1 = "log_call d (Get (url r)) w"
  have w1: "?w1 = w\<lparr>calls := calls w @ [(d, Get (url r))]\<rparr>" by (simp add: log_call_def)
  obtain x2 c2 where s2: "add_cookies b d (cookies r)
      (w\<lparr>calls := calls w @ [(d, Get (url r))]\<rparr>) = (x2, w\<lparr>calls := c2\<rparr>)"
    using add_cookies_calls_only [of b d "cookies r" ?w1] by (auto simp add: w1)
  obtain x3 c3 where s3: "wait_step b d r (w\<lparr>calls := c2\<rparr>) = (x3, w\<lparr>calls := c3\<rparr>)"
    using wait_step_calls_only [of b d r "w\<lparr>calls := c2\<rparr>"] by auto
  obtain x4 c4 where s4: "screenshot_step b d r (w\<lparr>calls := c3\<rparr>) = (x4, w\<lparr>calls := c4\<rparr>)"
    using screenshot_step_calls_only [of b d r "w\<lparr>calls := c3\<rparr>"] by auto
  show ?thesis
  proof (cases "on_get b")
    case (Some e)
    then show ?thesis by (auto simp add: drive_def w1)
  next
    case None
    note g = this
    show ?thesis
    proof (cases x2)
      case (Some e)
      then show ?thesis by (auto simp add: drive_def log_call_def g s2)
    next
      case None
      note a = this
      show ?thesis
      proof (cases x3)
        case (Some e)
        then show ?thesis by (auto simp add: drive_def log_call_def g s2 a s3)
      next
        case None
        note b3 = this
        show ?thesis
        proof (cases x4)
          case (Inl e)
          then show ?thesis by (auto simp add: drive_def log_call_def g s2 a s3 b3 s4)
        next
          case (Inr r4)
          obtain x5 c5 where s5:
            "script_step b d r4 (w\<lparr>calls := c4\<rparr>) = (x5, w\<lparr>calls := c5\<rparr>)"
            using script_step_calls_only [of b d r4 "w\<lparr>calls := c4\<rparr>"] by auto
          show ?thesis
            by (cases x5; cases "on_page_source b"; cases "on_current_url b")
              (auto simp add: drive_def g s2 a s3 b3 s4 Inr s5 log_call_def Let_def)
        qed
      qed
    qed
  qed
qed

lemma drive_world:
  "importable (snd (snd (drive b d r w))) = importable w
   \<and> manager_installed (snd (snd (drive b d r w))) = manager_installed w
   \<and> start_fails (snd (snd (drive b d r w))) = start_fails w
   \<and> started (snd (snd (drive b d r w))) = started w
   \<and> quit_calls (snd (snd (drive b d r w))) = quit_calls w"
proof -
  from drive_calls_only [of b d r w]
  obtain cs where "snd (snd (drive b d r w)) = w\<lparr>calls := cs\<rparr>" by blast
  then show ?thesis by simp
qed

lemma drive_success:
  assumes "on_get b = None"
    and "\<forall>(n, v)\<in>set (cookies r). on_add_cookie b n = None"
    and "\<forall>c. wait_until r = Some c \<longrightarrow> wait_time r = Some t \<and> on_wait b = None"
    and "screenshot r \<longrightarrow> on_screenshot b = Inr png"
    and "truthy (script r) \<longrightarrow> on_execute_script b = None"
    and "on_page_source b = Inr markup"
    and "on_current_url b = Inr u"
  shows "drive b d r w =
     (Inr \<lparr>response_url = u, body = markup, encoding = ''utf-8'',
           response_request =
             r\<lparr>meta := (if screenshot r then (meta r)(''screenshot'' \<mapsto> MBytes png)
                         else meta r)(''driver'' \<mapsto> MDriver d)\<rparr>\<rparr>,
      r\<lparr>meta := (if screenshot r then (meta r)(''screenshot'' \<mapsto> MBytes png)
                  else meta r)(''driver'' \<mapsto> MDriver d)\<rparr>,
      w\<lparr>calls := calls w @ map (Pair d)
         ([Get (url r)] @ map (\<lambda>(n, v). AddCookie n v) (cookies r)
          @ (case wait_until r of None \<Rightarrow> [] | Some c \<Rightarrow> [WaitUntil c t])
          @ (if screenshot r then [GetScreenshotAsPng] else [])
          @ (if truthy (script r) then [ExecuteScript (the (script r))] else [])
          @ [PageSource, CurrentUrl])\<rparr>)"
  using assms
  by (auto simp add: drive_def add_cookies_ok wait_step_def screenshot_step_def script_step_def
      log_call_def str_encode_def truthy_def Let_def split: option.splits)

lemma drive_wait_fails:
  assumes "on_get b = None"
    and "\<forall>(n, v)\<in>set (cookies r). on_add_cookie b n = None"
    and "wait_until r = Some c" and "wait_time r = Some t" and "on_wait b = Some e"
  shows "drive b d r w =
     (Inl e, r,
      w\<lparr>calls := calls w @ map (Pair d)
         ([Get (url r)] @ map (\<lambda>(n, v). AddCookie n v) (cookies r)
          @ [WaitUntil c t])\<rparr>)"
  using assms
  by (simp add: drive_def add_cookies_ok wait_step_def log_call_def Let_def)

lemma drive_wait_no_time:
  assumes "on_get b = None"
    and "\<forall>(n, v)\<in>set (cookies r). on_add_cookie b n = None"
    and "wait_until r = Some c" and "wait_time r = None"
  shows "drive b d r w =
     (Inl (TypeError ''float() argument must be a string or a number''), r,
      w\<lparr>calls := calls w @ map (Pair d)
         ([Get (url r)] @ map (\<lambda>(n, v). AddCookie n v) (cookies r))\<rparr>)"
  using assms
  by (simp add: drive_def add_cookies_ok wait_step_def log_call_def Let_def)

lemma process_request_failure:
  assumes "is_selenium r" and "get_driver m = (Returned d, m1)"
    and "drive b d r w = (Inl e, r', w')"
  shows "(\<forall>x. fst (process_request m b r w) \<noteq> Returned x)
       \<and> calls (snd (snd (snd (process_request m b r w)))) = calls w'
       \<and> d \<in> set (quit_calls (snd (snd (snd (process_request m b r w)))))"
proof -
  obtain res w2 where cd: "create_driver m1 (quit d w') = (res, w2)"
    by (cases "create_driver m1 (quit d w')")
  have "calls w2 = calls w'" "quit_calls w2 = quit_calls w' @ [d]"
    using create_driver_calls [of m1 "quit d w'"] create_driver_quit_calls [of m1 "quit d w'"] cd
    by (simp_all add: quit_def)
  then show ?thesis
    using assms
    by (auto simp add: process_request_def replace_driver_def finally_put_def cd
        split: sum.splits option.splits)
qed

lemma process_request_raises:
  assumes "is_selenium r" and "get_driver m = (Returned d, m\<lparr>driver_pool := q\<rparr>)"
    and "drive b d r w = (Inl e, r', w')"
    and "provisionable m w" and "\<not> start_fails w (length (started w))"
    and "pool_size m \<le> 0 \<or> int (length q) + 2 \<le> pool_size m"
  shows "fst (process_request m b r w) = Raised e"
proof -
  let ?m1 = "m\<lparr>driver_pool := q\<rparr>"
  from drive_world [of b d r w] assms(3)
  have w': "importable w' = importable w" "manager_installed w' = manager_installed w"
    "start_fails w' = start_fails w" "started w' = started w"
    by simp_all
  have p: "provisionable ?m1 (quit d w')"
    using assms(4) w' by (simp add: provisionable_def quit_def)
  have nf: "\<not> start_fails (quit d w') (length (started (quit d w')))"
    using assms(5) w' by (simp add: quit_def)
  from create_driver_starts [OF p nf]
  obtain w2 where cd: "create_driver ?m1 (quit d w') = (Inr (length (started (quit d w'))), w2)"
    by blast
  let ?n = "length (started (quit d w'))"
  have put1: "put_driver ?n ?m1 = Some (?m1\<lparr>driver_pool := q @ [?n]\<rparr>)"
    using assms(6) put_driver_room [of ?m1 ?n] by auto
  have put2: "put_driver d (?m1\<lparr>driver_pool := q @ [?n]\<rparr>)
      = Some (?m1\<lparr>driver_pool := q @ [?n, d]\<rparr>)"
    using assms(6) put_driver_room [of "?m1\<lparr>driver_pool := q @ [?n]\<rparr>" d] by auto
  show ?thesis
    using assms(1,2,3) cd put1 put2
    by (simp add: process_request_def replace_driver_def finally_put_def)
qed

subsection \<open>A failed request\<close>

text \<open>
  Claim C1. When a step of the drive fails, the middleware quits the driver of the request
  and puts a new driver in the queue; the failed driver must not come back to the queue,
  and the failure goes to the caller. The code does not keep this: the \<^verbatim>\<open>finally\<close>
  clause runs after the handler too. Here driver 1 is taken from the queue while another
  caller holds driver 0, and the navigation fails: the exception reaches the caller, driver 1
  has been quit, and the queue holds the new driver 2 and then the quit driver 1. With
  both drivers in the queue at the start, the second \<^verbatim>\<open>put\<close> finds the queue full and
  the call never returns.
\<close>

theorem process_request_failure_requeues_quit_driver:
  "(case process_request (example_middleware\<lparr>driver_pool := [1]\<rparr>)
           (example_browser\<lparr>on_get := Some (WebDriverException ''unreachable'')\<rparr>)
           example_request example_world2 of
      (out, r, m, w) \<Rightarrow> (out, driver_pool m, quit_calls w))
     = (Raised (WebDriverException ''unreachable''), [2, 1], [1])
   \<and> (case process_request (example_middleware\<lparr>driver_pool := [0, 1]\<rparr>)
           (example_browser\<lparr>on_get := Some (WebDriverException ''unreachable'')\<rparr>)
           example_request example_world2 of
      (out, r, m, w) \<Rightarrow> (out, driver_pool m, quit_calls w))
     = (Blocked, [1, 2], [0])"
  by (simp add: eval_defs example_defs)

subsection \<open>An empty pool\<close>

text \<open>
  Claim C3. When no driver comes within the timeout, the middleware must log the condition
  and return \<^verbatim>\<open>None\<close>, so that the request is handled the normal way. The code does
  not: the module never imports \<^verbatim>\<open>Empty\<close> (nor \<^verbatim>\<open>logging\<close>), so matching the
  exception of \<^verbatim>\<open>get\<close> against \<^verbatim>\<open>except Empty\<close> raises \<^verbatim>\<open>NameError\<close>, which
  goes to the caller. Here the queue is empty and the timeout is 300 seconds.
\<close>

theorem process_request_empty_pool_raises_NameError:
  "process_request example_middleware example_browser example_request example_world
     = (Raised (NameError ''Empty''), example_request, example_middleware, example_world)"
  by (simp add: eval_defs example_defs)

subsection \<open>Creating a driver\<close>

text \<open>
  Claim C6. With neither a driver executable nor a command executor, creating a driver
  for a kind other than chrome must fail with an error that says the kind is not
  supported. The code has no such case: for firefox nothing is bound to \<^verbatim>\<open>driver\<close>
  and \<^verbatim>\<open>return driver\<close> raises \<^verbatim>\<open>UnboundLocalError\<close>; no session is started.
\<close>

theorem create_driver_firefox_UnboundLocalError:
  "create_driver
     (example_middleware\<lparr>driver_name := ''firefox'', driver_executable_path := None\<rparr>)
     example_world
     = (Inl (UnboundLocalError ''driver''), example_world)"
  by (simp add: eval_defs example_defs)

text \<open>
  Claim C7, as amended. Where the modules of the kind import and the arguments are a list
  of non-empty strings, a call of \<^verbatim>\<open>create_driver\<close> attempts at most one session start,
  chosen in this order: with the local driver executable whenever it is set; else at the
  command executor whenever it is set; else through webdriver-manager, where a session is
  started for chrome only. In each case the options hold the browser path as binary
  location when it is set and not empty (and no binary location otherwise) and every
  argument in order.
\<close>

theorem create_driver_mode_precedence:
  assumes "driver_name m \<in> set (importable w)"
    and "driver_arguments m = Some args"
    and "[] \<notin> set args"
    and "\<forall>bp. browser_executable_path m = Some bp \<and> bp \<noteq> [] \<longrightarrow> loc = Some bp"
    and "browser_executable_path m = None \<or> browser_executable_path m = Some [] \<longrightarrow> loc = None"
  shows "(\<forall>p. driver_executable_path m = Some p \<longrightarrow>
            drop (length (started w)) (started (snd (create_driver m w)))
              = [LocalDriver (driver_name m) p \<lparr>binary_location = loc, arguments = args\<rparr>])
       \<and> (\<forall>c. driver_executable_path m = None \<and> command_executor m = Some c \<longrightarrow>
            drop (length (started w)) (started (snd (create_driver m w)))
              = [RemoteDriver c \<lparr>binary_location = loc, arguments = args\<rparr>])
       \<and> (driver_executable_path m = None \<and> command_executor m = None \<longrightarrow>
            drop (length (started w)) (started (snd (create_driver m w)))
              = (if manager_installed w \<and> lower (driver_name m) = ''chrome''
                 then [ManagedChrome \<lparr>binary_location = loc, arguments = args\<rparr>]
                 else []))"
proof -
  have loc: "(if truthy (browser_executable_path m) then browser_executable_path m else None)
      = loc"
    using assms(4,5) by (cases "browser_executable_path m") (auto simp add: truthy_def)
  show ?thesis
    using assms(1,2)
    by (auto simp add: create_driver_def add_arguments_ok [OF assms(3)] loc
        start_session_cases lower_def)
qed

theorem create_driver_mode_precedence_witness:
  "driver_name (example_middleware\<lparr>command_executor := Some ''http://hub:4444'',
        browser_executable_path := Some ''/opt/chrome/chrome''\<rparr>)
       \<in> set (importable example_world)
   \<and> driver_arguments (example_middleware\<lparr>command_executor := Some ''http://hub:4444'',
        browser_executable_path := Some ''/opt/chrome/chrome''\<rparr>)
       = Some [''--headless'']
   \<and> [] \<notin> set [''--headless'']
   \<and> browser_executable_path (example_middleware\<lparr>command_executor := Some ''http://hub:4444'',
        browser_executable_path := Some ''/opt/chrome/chrome''\<rparr>)
       = Some ''/opt/chrome/chrome''
   \<and> drop (length (started example_world))
        (started (snd (create_driver
           (example_middleware\<lparr>command_executor := Some ''http://hub:4444'',
              browser_executable_path := Some ''/opt/chrome/chrome''\<rparr>)
           example_world)))
       = [LocalDriver ''chrome'' ''/usr/bin/chromedriver''
            \<lparr>binary_location = Some ''/opt/chrome/chrome'', arguments = [''--headless'']\<rparr>]"
proof -
  let ?m = "example_middleware\<lparr>command_executor := Some ''http://hub:4444'',
        browser_executable_path := Some ''/opt/chrome/chrome''\<rparr>"
  have h: "driver_name ?m \<in> set (importable example_world)"
    "driver_arguments ?m = Some [''--headless'']"
    "[] \<notin> set [''--headless'']"
    "\<forall>bp. browser_executable_path ?m = Some bp \<and> bp \<noteq> []
       \<longrightarrow> Some ''/opt/chrome/chrome'' = Some bp"
    "browser_executable_path ?m = None \<or> browser_executable_path ?m = Some []
       \<longrightarrow> Some ''/opt/chrome/chrome'' = None"
    by (simp_all add: example_defs)
  have bp: "browser_executable_path ?m = Some ''/opt/chrome/chrome''"
    and ex: "driver_executable_path ?m = Some ''/usr/bin/chromedriver''"
    and nm: "driver_name ?m = ''chrome''"
    by (simp_all add: example_defs)
  note t = create_driver_mode_precedence [OF h]
  from t have "\<forall>p. driver_executable_path ?m = Some p \<longrightarrow>
      drop (length (started example_world)) (started (snd (create_driver ?m example_world)))
        = [LocalDriver (driver_name ?m) p
             \<lparr>binary_location = Some ''/opt/chrome/chrome'', arguments = [''--headless'']\<rparr>]"
    by (rule conjunct1)
  then have "driver_executable_path ?m = Some ''/usr/bin/chromedriver'' \<longrightarrow>
      drop (length (started example_world)) (started (snd (create_driver ?m example_world)))
        = [LocalDriver (driver_name ?m) ''/usr/bin/chromedriver''
             \<lparr>binary_location = Some ''/opt/chrome/chrome'', arguments = [''--headless'']\<rparr>]"
    by (rule spec)
  from this ex have "drop (length (started example_world))
        (started (snd (create_driver ?m example_world)))
        = [LocalDriver (driver_name ?m) ''/usr/bin/chromedriver''
             \<lparr>binary_location = Some ''/opt/chrome/chrome'', arguments = [''--headless'']\<rparr>]"
    by (rule mp)
  then have r: "drop (length (started example_world))
        (started (snd (create_driver ?m example_world)))
        = [LocalDriver ''chrome'' ''/usr/bin/chromedriver''
             \<lparr>binary_location = Some ''/opt/chrome/chrome'', arguments = [''--headless'']\<rparr>]"
    by (simp only: nm)
  from h(1,2,3) bp r show ?thesis by (intro conjI)
qed

text \<open>
  The claim as stated fails: with the local driver executable set, a kind whose modules do
  not import, or an empty string among the arguments, makes \<^verbatim>\<open>create_driver\<close> raise
  before it chooses, and no session is started in any mode.
\<close>

theorem create_driver_raises_before_mode:
  "driver_executable_path (example_middleware\<lparr>driver_name := ''nosuch''\<rparr>)
     = Some ''/usr/bin/chromedriver''
   \<and> create_driver (example_middleware\<lparr>driver_name := ''nosuch''\<rparr>) example_world
     = (Inl (ModuleNotFoundError ''selenium.webdriver.nosuch''), example_world)
   \<and> driver_executable_path (example_middleware\<lparr>driver_arguments := Some [''--headless'', []]\<rparr>)
     = Some ''/usr/bin/chromedriver''
   \<and> create_driver (example_middleware\<lparr>driver_arguments := Some [''--headless'', []]\<rparr>)
        example_world
     = (Inl (ValueError ''argument can not be null''), example_world)
   \<and> started example_world = []"
  by (simp add: eval_defs example_defs)

subsection \<open>The constructor\<close>

text \<open>
  Claim C5, as amended. The constructor creates the drivers one after the other and puts
  each in the queue. Where a session can be started at all and none of the next
  \<open>pool_size\<close> starts fails, it returns the middleware with exactly these
  \<open>pool_size\<close> new drivers in the queue, in the order of their creation. If a creation
  fails, the constructor fails as a whole with the error of that creation and gives no
  middleware: where no session can be started, with the error of the first call of
  \<^verbatim>\<open>create_driver\<close> and nothing started; where the start number \<open>k\<close> is the first to
  fail, with the error of that start and the \<open>k\<close> sessions before it started; and in
  every case the error and the world are those of one of its calls of
  \<^verbatim>\<open>create_driver\<close>. It never waits on the queue. It never quits a driver: when it
  fails, the sessions it has started already are left running.
\<close>

theorem init_fills_pool_or_fails_without_quit:
  "(provisionable cfg w
      \<and> (\<forall>k < nat (pool_size cfg). \<not> start_fails w (length (started w) + k)) \<longrightarrow>
      (\<exists>w'. init cfg w =
           (Returned (cfg\<lparr>driver_pool :=
               [length (started w) ..< length (started w) + nat (pool_size cfg)]\<rparr>), w')
         \<and> length (started w') = length (started w) + nat (pool_size cfg)))
   \<and> (0 < pool_size cfg \<and> \<not> provisionable cfg w \<longrightarrow>
         (\<exists>e. create_driver cfg w = (Inl e, w) \<and> init cfg w = (Raised e, w)))
   \<and> (\<forall>k < nat (pool_size cfg).
         provisionable cfg w \<and> start_fails w (length (started w) + k)
         \<and> (\<forall>j<k. \<not> start_fails w (length (started w) + j)) \<longrightarrow>
           fst (init cfg w) = Raised (WebDriverException ''session not created'')
           \<and> length (started (snd (init cfg w))) = length (started w) + k + 1)
   \<and> (\<forall>e. fst (init cfg w) = Raised e \<longrightarrow>
         (\<exists>ls. length ls < nat (pool_size cfg)
            \<and> create_driver cfg (w\<lparr>started := started w @ ls\<rparr>) = (Inl e, snd (init cfg w))))
   \<and> fst (init cfg w) \<noteq> Blocked
   \<and> quit_calls (snd (init cfg w)) = quit_calls w"
proof -
  let ?m = "cfg\<lparr>driver_pool := []\<rparr>" and ?n = "nat (pool_size cfg)"
  have room: "pool_size ?m \<le> 0 \<or> int (length (driver_pool ?m) + ?n) \<le> pool_size ?m"
    by auto
  have pm: "provisionable ?m w = provisionable cfg w"
    by (simp add: provisionable_def)
  have a: "\<exists>w'. init cfg w =
           (Returned (cfg\<lparr>driver_pool := [length (started w) ..< length (started w) + ?n]\<rparr>), w')
         \<and> length (started w') = length (started w) + ?n"
    if "provisionable cfg w" "\<forall>k < ?n. \<not> start_fails w (length (started w) + k)"
  proof -
    have "provisionable ?m w" using that(1) by (simp add: pm)
    from fill_pool_succeeds [OF this that(2) room]
    obtain m' w' where f: "fill_pool ?n ?m w = (Returned m', w')" by blast
    from fill_pool_Returned [OF f] show ?thesis by (simp add: init_def f)
  qed
  have b: "\<exists>e. create_driver cfg w = (Inl e, w) \<and> init cfg w = (Raised e, w)"
    if "0 < pool_size cfg" "\<not> provisionable cfg w"
  proof -
    from create_driver_not_provisionable [OF that(2)]
    obtain e where e: "create_driver cfg w = (Inl e, w)" by blast
    from that(1) obtain k where k: "?n = Suc k" by (cases ?n) auto
    have "init cfg w = (Raised e, w)"
      by (simp add: init_def k create_driver_pool e)
    with e show ?thesis by blast
  qed
  have c: "fst (init cfg w) = Raised (WebDriverException ''session not created'')
           \<and> length (started (snd (init cfg w))) = length (started w) + k + 1"
    if "k < ?n" "provisionable cfg w" "start_fails w (length (started w) + k)"
      "\<forall>j<k. \<not> start_fails w (length (started w) + j)" for k
  proof -
    have "provisionable ?m w" using that(2) by (simp add: pm)
    from fill_pool_first_failure [OF this that(1,3,4) room] show ?thesis
      by (simp add: init_def)
  qed
  have d: "\<exists>ls. length ls < ?n
            \<and> create_driver cfg (w\<lparr>started := started w @ ls\<rparr>) = (Inl e, snd (init cfg w))"
    if "fst (init cfg w) = Raised e" for e
  proof -
    from that have "fill_pool ?n ?m w = (Raised e, snd (init cfg w))"
      by (simp add: init_def prod_eq_iff)
    from fill_pool_Raised [OF this] show ?thesis by (simp add: create_driver_pool)
  qed
  have e: "fst (init cfg w) \<noteq> Blocked"
    unfolding init_def using room by (rule fill_pool_not_Blocked)
  have f: "quit_calls (snd (init cfg w)) = quit_calls w"
    by (simp add: init_def fill_pool_quit_calls)
  from a b c d e f show ?thesis by blast
qed

theorem init_fills_pool_or_fails_without_quit_witness:
  "provisionable example_middleware example_world
   \<and> fst (init example_middleware example_world)
       = Returned (example_middleware\<lparr>driver_pool := [0, 1]\<rparr>)
   \<and> \<not> provisionable (example_middleware\<lparr>driver_name := ''nosuch''\<rparr>) example_world
   \<and> init (example_middleware\<lparr>driver_name := ''nosuch''\<rparr>) example_world
       = (Raised (ModuleNotFoundError ''selenium.webdriver.nosuch''), example_world)
   \<and> fst (init example_middleware (example_world\<lparr>start_fails := (\<lambda>n. n = 1)\<rparr>))
       = Raised (WebDriverException ''session not created'')
   \<and> length (started (snd (init example_middleware
        (example_world\<lparr>start_fails := (\<lambda>n. n = 1)\<rparr>)))) = 2
   \<and> quit_calls (snd (init example_middleware example_world)) = []"
proof -
  let ?bad = "example_middleware\<lparr>driver_name := ''nosuch''\<rparr>"
  let ?w1 = "example_world\<lparr>start_fails := (\<lambda>n. n = 1)\<rparr>"
  have p: "provisionable example_middleware example_world"
    by (simp add: provisionable_def example_defs)
  have p1: "provisionable example_middleware ?w1"
    by (simp add: provisionable_def example_defs)
  have np: "\<not> provisionable ?bad example_world"
    by (simp add: provisionable_def example_defs)
  have pos: "0 < pool_size ?bad" by (simp add: example_defs)
  have nf: "\<forall>k < nat (pool_size example_middleware).
      \<not> start_fails example_world (length (started example_world) + k)"
    by (simp add: example_defs)
  have f: "1 < nat (pool_size example_middleware)"
    "start_fails ?w1 (length (started ?w1) + 1)"
    "\<forall>j<1. \<not> start_fails ?w1 (length (started ?w1) + j)"
    by (simp_all add: example_defs)
  have u: "[0 ..< 2] = [0, Suc 0]" by (simp add: upt_rec)
  note t0 = init_fills_pool_or_fails_without_quit [of example_middleware example_world]
  note t1 = init_fills_pool_or_fails_without_quit [of ?bad example_world]
  note t2 = init_fills_pool_or_fails_without_quit [of example_middleware ?w1]
  have "\<exists>w'. init example_middleware example_world =
       (Returned (example_middleware\<lparr>driver_pool :=
          [length (started example_world) ..<
             length (started example_world) + nat (pool_size example_middleware)]\<rparr>), w')
       \<and> length (started w')
           = length (started example_world) + nat (pool_size example_middleware)"
    by (rule mp [OF t0 [THEN conjunct1]]) (intro conjI p nf)
  then have a: "fst (init example_middleware example_world)
       = Returned (example_middleware\<lparr>driver_pool := [0, 1]\<rparr>)"
    by (auto simp add: example_defs u)
  have "\<exists>e. create_driver ?bad example_world = (Inl e, example_world)
      \<and> init ?bad example_world = (Raised e, example_world)"
    by (rule mp [OF t1 [THEN conjunct2, THEN conjunct1]]) (intro conjI pos np)
  then have b: "init ?bad example_world
       = (Raised (ModuleNotFoundError ''selenium.webdriver.nosuch''), example_world)"
    by (auto simp add: eval_defs example_defs)
  from t2 have "\<forall>k < nat (pool_size example_middleware).
         provisionable example_middleware ?w1 \<and> start_fails ?w1 (length (started ?w1) + k)
         \<and> (\<forall>j<k. \<not> start_fails ?w1 (length (started ?w1) + j)) \<longrightarrow>
           fst (init example_middleware ?w1) = Raised (WebDriverException ''session not created'')
           \<and> length (started (snd (init example_middleware ?w1)))
               = length (started ?w1) + k + 1"
    by (rule conjunct2 [THEN conjunct2, THEN conjunct1])
  from this [rule_format, of 1] f p1
  have "fst (init example_middleware ?w1) = Raised (WebDriverException ''session not created'')
      \<and> length (started (snd (init example_middleware ?w1))) = length (started ?w1) + 1 + 1"
    by simp
  then have c: "fst (init example_middleware ?w1)
        = Raised (WebDriverException ''session not created'')"
      "length (started (snd (init example_middleware ?w1))) = 2"
    by (simp_all add: example_defs)
  from t0 have "quit_calls (snd (init example_middleware example_world))
      = quit_calls example_world"
    by (rule conjunct2 [THEN conjunct2, THEN conjunct2, THEN conjunct2, THEN conjunct2])
  then have d: "quit_calls (snd (init example_middleware example_world)) = []"
    by (simp add: example_defs)
  from p a np b c d show ?thesis by (intro conjI)
qed

text \<open>
  The claim as stated fails: with room for two drivers and a second start that fails, the
  constructor raises, the first session (number 0) was started, and no driver was quit.
\<close>

theorem init_failure_leaves_session_running:
  "fst (init example_middleware (example_world\<lparr>start_fails := (\<lambda>n. n = 1)\<rparr>))
     = Raised (WebDriverException ''session not created'')
   \<and> started (snd (init example_middleware (example_world\<lparr>start_fails := (\<lambda>n. n = 1)\<rparr>)))
     = [example_launch, example_launch]
   \<and> \<not> start_fails (example_world\<lparr>start_fails := (\<lambda>n. n = 1)\<rparr>) 0
   \<and> quit_calls (snd (init example_middleware (example_world\<lparr>start_fails := (\<lambda>n. n = 1)\<rparr>)))
     = []"
  by (simp add: init_def eval_defs example_defs numeral_2_eq_2)

subsection \<open>The pool invariant\<close>

text \<open>
  Claim C2, as amended. From the pool that the constructor returns (pool size not
  negative), under any sequence of acquire, release and shutdown operations: no driver is
  held twice or both held and idle, the number of drivers held is at most the pool size,
  and held plus idle is at most the pool size, and equal to it as long as no shutdown has
  happened. Nothing is said about sequences with a replacement.
\<close>

theorem pool_invariant_without_replace:
  assumes "init cfg w = (Returned m, w')"
    and "0 \<le> pool_size cfg"
    and "\<forall>op\<in>set ops. \<not> is_Replace op"
  shows "distinct (held (run ops \<lparr>mw = m, env = w', held = []\<rparr>)
                   @ driver_pool (mw (run ops \<lparr>mw = m, env = w', held = []\<rparr>)))
       \<and> int (length (held (run ops \<lparr>mw = m, env = w', held = []\<rparr>))) \<le> pool_size cfg
       \<and> int (length (held (run ops \<lparr>mw = m, env = w', held = []\<rparr>))
              + length (driver_pool (mw (run ops \<lparr>mw = m, env = w', held = []\<rparr>))))
           \<le> pool_size cfg
       \<and> (Shutdown \<notin> set ops \<longrightarrow>
            int (length (held (run ops \<lparr>mw = m, env = w', held = []\<rparr>))
              + length (driver_pool (mw (run ops \<lparr>mw = m, env = w', held = []\<rparr>))))
              = pool_size cfg)"
proof -
  let ?s = "\<lparr>mw = m, env = w', held = []\<rparr>"
  from assms(1) have f: "fill_pool (nat (pool_size cfg)) (cfg\<lparr>driver_pool := []\<rparr>) w = (Returned m, w')"
    by (simp add: init_def)
  from fill_pool_Returned [OF f]
  have m: "m = cfg\<lparr>driver_pool := [length (started w) ..< length (started w) + nat (pool_size cfg)]\<rparr>"
    by simp
  have d0: "distinct (held ?s @ driver_pool (mw ?s))" by (simp add: m)
  have e0: "int (length (held ?s) + length (driver_pool (mw ?s))) = pool_size (mw ?s)"
    using assms(2) by (simp add: m)
  have ps: "pool_size (mw ?s) = pool_size cfg" by (simp add: m)
  from run_le [OF assms(3) d0] e0 ps
  have le: "distinct (held (run ops ?s) @ driver_pool (mw (run ops ?s)))"
    "int (length (held (run ops ?s)) + length (driver_pool (mw (run ops ?s)))) \<le> pool_size cfg"
    "pool_size (mw (run ops ?s)) = pool_size cfg"
    by auto
  have eq: "int (length (held (run ops ?s)) + length (driver_pool (mw (run ops ?s)))) = pool_size cfg"
    if "Shutdown \<notin> set ops"
    using run_eq [OF assms(3) that d0 e0] le(3) by simp
  from le eq show ?thesis by auto
qed

theorem pool_invariant_without_replace_witness:
  "init example_middleware example_world = (Returned (mw example_system), env example_system)
   \<and> held example_system = []
   \<and> 0 \<le> pool_size example_middleware
   \<and> held (run [Acquire, Acquire, Release 0, Shutdown, Release 1, Acquire] example_system) = [1]
   \<and> driver_pool (mw (run [Acquire, Acquire, Release 0, Shutdown, Release 1, Acquire]
        example_system)) = []
   \<and> int (length (held (run [Acquire, Acquire, Release 0, Shutdown, Release 1, Acquire]
        example_system))) \<le> pool_size example_middleware
   \<and> held (run [Acquire, Release 0, Acquire] example_system) = [1]
   \<and> driver_pool (mw (run [Acquire, Release 0, Acquire] example_system)) = [0]
   \<and> int (length (held (run [Acquire, Release 0, Acquire] example_system))
        + length (driver_pool (mw (run [Acquire, Release 0, Acquire] example_system))))
       = pool_size example_middleware"
proof -
  have i: "init example_middleware example_world
      = (Returned (example_middleware\<lparr>driver_pool := [0, 1]\<rparr>), example_world2)"
    by (rule init_example)
  have p: "0 \<le> pool_size example_middleware" by (simp add: example_defs)
  have r1: "\<forall>op\<in>set [Acquire, Acquire, Release 0, Shutdown, Release 1, Acquire]. \<not> is_Replace op"
    and r2: "\<forall>op\<in>set [Acquire, Release 0, Acquire]. \<not> is_Replace op"
    and ns: "Shutdown \<notin> set [Acquire, Release 0, Acquire]"
    by (simp_all add: is_Replace_def)
  have s: "example_system
      = \<lparr>mw = example_middleware\<lparr>driver_pool := [0, 1]\<rparr>, env = example_world2, held = []\<rparr>"
    by (simp add: example_system_def)
  from pool_invariant_without_replace [OF i p r1] pool_invariant_without_replace [OF i p r2] ns
  have "int (length (held (run [Acquire, Acquire, Release 0, Shutdown, Release 1, Acquire]
        example_system))) \<le> pool_size example_middleware"
    and "int (length (held (run [Acquire, Release 0, Acquire] example_system))
        + length (driver_pool (mw (run [Acquire, Release 0, Acquire] example_system))))
       = pool_size example_middleware"
    unfolding s by blast+
  moreover have "held (run [Acquire, Acquire, Release 0, Shutdown, Release 1, Acquire] example_system) = [1]"
    "driver_pool (mw (run [Acquire, Acquire, Release 0, Shutdown, Release 1, Acquire]
        example_system)) = []"
    "held (run [Acquire, Release 0, Acquire] example_system) = [1]"
    "driver_pool (mw (run [Acquire, Release 0, Acquire] example_system)) = [0]"
    by (simp_all add: pool_eval eval_defs example_defs)
  ultimately show ?thesis using i p by (simp add: example_system_def)
qed

text \<open>
  The claim as stated fails: after a shutdown of the fresh pool of size two, nothing is
  held and nothing is idle.
\<close>

theorem shutdown_breaks_pool_size_sum:
  "init example_middleware example_world = (Returned (mw example_system), env example_system)
   \<and> held example_system = []
   \<and> length (held (run [Shutdown] example_system)) = 0
   \<and> length (driver_pool (mw (run [Shutdown] example_system))) = 0
   \<and> pool_size (mw (run [Shutdown] example_system)) = 2"
  using init_example by (simp add: pool_eval example_defs)

subsection \<open>Shutdown\<close>

text \<open>
  Claim C4, as amended. \<^verbatim>\<open>spider_closed\<close> calls \<^verbatim>\<open>quit\<close> once for every entry
  of the queue, in the queue's order, and on nothing else, and leaves the queue empty; so
  where the entries are distinct and none was quit before, each has been quit exactly once.
  A second call right after changes nothing. There is no closed state: a \<^verbatim>\<open>get\<close>
  right after the shutdown behaves as on any empty queue (it waits forever without a
  timeout, refuses a negative timeout, and else raises \<^verbatim>\<open>Empty\<close>).
\<close>

theorem spider_closed_quits_idle_once:
  "spider_closed m w = (m\<lparr>driver_pool := []\<rparr>, w\<lparr>quit_calls := quit_calls w @ driver_pool m\<rparr>)
   \<and> spider_closed (fst (spider_closed m w)) (snd (spider_closed m w)) = spider_closed m w
   \<and> (distinct (driver_pool m) \<and> set (driver_pool m) \<inter> set (quit_calls w) = {} \<longrightarrow>
        (\<forall>d\<in>set (driver_pool m). count_list (quit_calls (snd (spider_closed m w))) d = 1))
   \<and> fst (get_driver (fst (spider_closed m w)))
       = (case queue_timeout m of
            None \<Rightarrow> Blocked
          | Some t \<Rightarrow>
              if t < 0 then Raised (ValueError ''timeout must be a non-negative number'')
              else Raised Empty)"
proof -
  have "count_list (quit_calls (snd (spider_closed m w))) d = 1"
    if "distinct (driver_pool m)" "set (driver_pool m) \<inter> set (quit_calls w) = {}"
      "d \<in> set (driver_pool m)" for d
  proof -
    from that have "d \<notin> set (quit_calls w)" by auto
    then show ?thesis
      using that by (simp add: spider_closed_eq count_list_distinct count_list_notin)
  qed
  moreover have "fst (get_driver (fst (spider_closed m w)))
       = (case queue_timeout m of
            None \<Rightarrow> Blocked
          | Some t \<Rightarrow>
              if t < 0 then Raised (ValueError ''timeout must be a non-negative number'')
              else Raised Empty)"
    by (simp add: spider_closed_eq get_driver_def queue_get_def split: option.splits)
  ultimately show ?thesis by (simp add: spider_closed_eq)
qed

theorem spider_closed_quits_idle_once_witness:
  "distinct (driver_pool (mw example_system))
   \<and> set (driver_pool (mw example_system)) \<inter> set (quit_calls (env example_system)) = {}
   \<and> 0 \<in> set (driver_pool (mw example_system))
   \<and> count_list (quit_calls (snd (spider_closed (mw example_system) (env example_system)))) 0 = 1
   \<and> quit_calls (snd (spider_closed (mw example_system) (env example_system))) = [0, 1]"
proof -
  have h: "distinct (driver_pool (mw example_system))"
    "set (driver_pool (mw example_system)) \<inter> set (quit_calls (env example_system)) = {}"
    "0 \<in> set (driver_pool (mw example_system))"
    by (simp_all add: example_system_def example_defs)
  from spider_closed_quits_idle_once [of "mw example_system" "env example_system"] h
  have "count_list (quit_calls (snd (spider_closed (mw example_system) (env example_system)))) 0 = 1"
    by blast
  moreover from spider_closed_quits_idle_once [of "mw example_system" "env example_system"]
  have "quit_calls (snd (spider_closed (mw example_system) (env example_system))) = [0, 1]"
    by (simp add: example_system_def example_defs)
  ultimately show ?thesis using h by blast
qed

text \<open>
  The claim as stated fails: after the shutdown, a caller that still holds driver 0 puts
  it back, and the next \<^verbatim>\<open>get\<close> returns driver 0 instead of failing.
\<close>

theorem acquire_after_shutdown_succeeds:
  "fst (spider_closed (example_middleware\<lparr>driver_pool := [1]\<rparr>) example_world2)
     = example_middleware\<lparr>driver_pool := []\<rparr>
   \<and> put_driver 0 (example_middleware\<lparr>driver_pool := []\<rparr>)
     = Some (example_middleware\<lparr>driver_pool := [0]\<rparr>)
   \<and> get_driver (example_middleware\<lparr>driver_pool := [0]\<rparr>)
     = (Returned 0, example_middleware\<lparr>driver_pool := []\<rparr>)"
  by (simp add: spider_closed_eq eval_defs example_defs)

text \<open>
  Claim C10. A shutdown quits exactly the drivers that are idle in the queue: a driver
  that a caller holds at that time is not quit by it and stays held. When the caller
  releases it afterwards, the driver is put in the emptied queue, no \<^verbatim>\<open>quit\<close> is
  called, and the next acquire hands the same driver out again. The shutdown is its
  loop, one pass per idle driver; while other callers acquire and release between the
  passes, in any order, the driver that its caller keeps is still held and is not quit.
\<close>

theorem shutdown_spares_held_driver:
  assumes "d \<in> set (held s)"
    and "distinct (held s @ driver_pool (mw s))"
    and "\<forall>t. queue_timeout (mw s) = Some t \<longrightarrow> 0 \<le> t"
    and "\<forall>e\<in>set evs. other_caller d e"
  shows "held (pool_step Shutdown s) = held s
       \<and> quit_calls (env (pool_step Shutdown s)) = quit_calls (env s) @ driver_pool (mw s)
       \<and> count_list (quit_calls (env (pool_step Shutdown s))) d
           = count_list (quit_calls (env s)) d
       \<and> driver_pool (mw (pool_step Shutdown s)) = []
       \<and> driver_pool (mw (pool_step (Release d) (pool_step Shutdown s))) = [d]
       \<and> held (pool_step (Release d) (pool_step Shutdown s)) = remove1 d (held s)
       \<and> quit_calls (env (pool_step (Release d) (pool_step Shutdown s)))
           = quit_calls (env (pool_step Shutdown s))
       \<and> held (pool_step Acquire (pool_step (Release d) (pool_step Shutdown s)))
           = remove1 d (held s) @ [d]
       \<and> driver_pool (mw (pool_step Acquire (pool_step (Release d) (pool_step Shutdown s))))
           = []
       \<and> fold drain_step (replicate (length (driver_pool (mw s))) Drain) s
           = pool_step Shutdown s
       \<and> d \<in> set (held (fold drain_step evs s))
       \<and> count_list (quit_calls (env (fold drain_step evs s))) d
           = count_list (quit_calls (env s)) d"
proof -
  define s1 where "s1 = pool_step Shutdown s"
  define s2 where "s2 = pool_step (Release d) s1"
  define s3 where "s3 = pool_step Acquire s2"
  have e1: "s1 = s\<lparr>mw := (mw s)\<lparr>driver_pool := []\<rparr>,
                   env := (env s)\<lparr>quit_calls := quit_calls (env s) @ driver_pool (mw s)\<rparr>\<rparr>"
    by (simp add: s1_def spider_closed_eq)
  from assms(1,2) have "d \<notin> set (driver_pool (mw s))" by auto
  then have cnt: "count_list (quit_calls (env s1)) d = count_list (quit_calls (env s)) d"
    by (simp add: e1 count_list_notin)
  have put: "put_driver d (mw s1) = Some ((mw s)\<lparr>driver_pool := [d]\<rparr>)"
    by (simp add: e1 put_driver_def queue_put_def queue_full_def)
  have e2: "s2 = s1\<lparr>mw := (mw s)\<lparr>driver_pool := [d]\<rparr>, held := remove1 d (held s)\<rparr>"
    using assms(1) put by (simp add: s2_def) (simp add: e1)
  have get: "get_driver (mw s2) = (Returned d, (mw s)\<lparr>driver_pool := []\<rparr>)"
    using assms(3)
    by (cases "queue_timeout (mw s)") (auto simp add: e2 get_driver_def queue_get_def)
  have e3: "s3 = s2\<lparr>mw := (mw s)\<lparr>driver_pool := []\<rparr>, held := remove1 d (held s) @ [d]\<rparr>"
    using get by (simp add: s3_def) (simp add: e2)
  have "held s1 = held s
       \<and> quit_calls (env s1) = quit_calls (env s) @ driver_pool (mw s)
       \<and> count_list (quit_calls (env s1)) d = count_list (quit_calls (env s)) d
       \<and> driver_pool (mw s1) = []
       \<and> driver_pool (mw s2) = [d]
       \<and> held s2 = remove1 d (held s)
       \<and> quit_calls (env s2) = quit_calls (env s1)
       \<and> held s3 = remove1 d (held s) @ [d]
       \<and> driver_pool (mw s3) = []"
    using cnt by (simp add: e3 e2) (simp add: e1)
  then have atomic: "held (pool_step Shutdown s) = held s
       \<and> quit_calls (env (pool_step Shutdown s)) = quit_calls (env s) @ driver_pool (mw s)
       \<and> count_list (quit_calls (env (pool_step Shutdown s))) d
           = count_list (quit_calls (env s)) d
       \<and> driver_pool (mw (pool_step Shutdown s)) = []
       \<and> driver_pool (mw (pool_step (Release d) (pool_step Shutdown s))) = [d]
       \<and> held (pool_step (Release d) (pool_step Shutdown s)) = remove1 d (held s)
       \<and> quit_calls (env (pool_step (Release d) (pool_step Shutdown s)))
           = quit_calls (env (pool_step Shutdown s))
       \<and> held (pool_step Acquire (pool_step (Release d) (pool_step Shutdown s)))
           = remove1 d (held s) @ [d]
       \<and> driver_pool (mw (pool_step Acquire (pool_step (Release d) (pool_step Shutdown s))))
           = []"
    unfolding s1_def s2_def s3_def .
  have loop: "fold drain_step (replicate (length (driver_pool (mw s))) Drain) s
      = pool_step Shutdown s"
    by (rule drain_all)
  have "d \<in> set (held (fold drain_step evs s))
      \<and> d \<notin> set (driver_pool (mw (fold drain_step evs s)))
      \<and> count_list (quit_calls (env (fold drain_step evs s))) d
          = count_list (quit_calls (env s)) d"
    using assms(4,1) \<open>d \<notin> set (driver_pool (mw s))\<close> by (rule drain_run_spares)
  with atomic loop show ?thesis by (elim conjE) (intro conjI; assumption)
qed

theorem shutdown_spares_held_driver_witness:
  "0 \<in> set (held example_held)
   \<and> distinct (held example_held @ driver_pool (mw example_held))
   \<and> queue_timeout (mw example_held) = Some 300
   \<and> list_all (other_caller 0) [Caller Acquire, Drain, Caller (Release 1), Drain]
   \<and> quit_calls (env (pool_step Shutdown example_held)) = [1]
   \<and> driver_pool (mw (pool_step (Release 0) (pool_step Shutdown example_held))) = [0]
   \<and> held (pool_step Acquire (pool_step (Release 0) (pool_step Shutdown example_held))) = [0]
   \<and> 0 \<in> set (held (fold drain_step [Caller Acquire, Drain, Caller (Release 1), Drain]
        example_held))
   \<and> quit_calls (env (fold drain_step [Caller Acquire, Drain, Caller (Release 1), Drain]
        example_held)) = [1]
   \<and> count_list (quit_calls (env (fold drain_step
        [Caller Acquire, Drain, Caller (Release 1), Drain] example_held))) 0 = 0"
proof -
  have h: "0 \<in> set (held example_held)"
    "distinct (held example_held @ driver_pool (mw example_held))"
    "\<forall>t. queue_timeout (mw example_held) = Some t \<longrightarrow> 0 \<le> t"
    "\<forall>e\<in>set [Caller Acquire, Drain, Caller (Release 1), Drain]. other_caller 0 e"
    by (simp_all add: example_held_def example_defs other_caller_def)
  have h': "queue_timeout (mw example_held) = Some 300"
    "list_all (other_caller 0) [Caller Acquire, Drain, Caller (Release 1), Drain]"
    by (simp_all add: example_held_def example_defs other_caller_def)
  note t = shutdown_spares_held_driver [OF h]
  from t have "quit_calls (env (pool_step Shutdown example_held))
          = quit_calls (env example_held) @ driver_pool (mw example_held)"
    by (elim conjE)
  then have a: "quit_calls (env (pool_step Shutdown example_held)) = [1]"
    by (simp add: example_held_def example_defs)
  from t have b: "driver_pool (mw (pool_step (Release 0) (pool_step Shutdown example_held)))
      = [0]"
    by (elim conjE)
  from t have "held (pool_step Acquire (pool_step (Release 0) (pool_step Shutdown example_held)))
          = remove1 0 (held example_held) @ [0]"
    by (elim conjE)
  then have c: "held (pool_step Acquire (pool_step (Release 0) (pool_step Shutdown example_held)))
      = [0]"
    by (simp add: example_held_def)
  from t have d: "0 \<in> set (held (fold drain_step
      [Caller Acquire, Drain, Caller (Release 1), Drain] example_held))"
    by (elim conjE)
  from t have "count_list (quit_calls (env (fold drain_step
        [Caller Acquire, Drain, Caller (Release 1), Drain] example_held))) 0
      = count_list (quit_calls (env example_held)) 0"
    by (elim conjE)
  then have e: "count_list (quit_calls (env (fold drain_step
        [Caller Acquire, Drain, Caller (Release 1), Drain] example_held))) 0 = 0"
    by (simp add: example_held_def example_defs)
  have f: "quit_calls (env (fold drain_step [Caller Acquire, Drain, Caller (Release 1), Drain]
        example_held)) = [1]"
    by (simp add: example_held_def example_defs eval_defs)
  from h(1,2) h' a b c d f e show ?thesis by (intro conjI)
qed

subsection \<open>A successful request\<close>

text \<open>
  Claim C8. For a Selenium request, with a driver in the queue and every driver call
  succeeding (a wait condition comes with a wait time), \<^verbatim>\<open>process_request\<close> calls in
  this order: get, add_cookie for every cookie, the wait if a condition is set, the
  screenshot if asked for, the script if set, page_source and current_url. It puts the
  driver back at the end of the queue and returns a response with the current URL, the
  page source as body and the encoding utf-8; the screenshot is stored in the request's
  metadata. A wait that times out is a hard failure: the body of the \<^verbatim>\<open>try\<close> raises
  the exception of the wait and makes no later call on the driver (so does a wait
  condition without a wait time, before the wait is called). Whenever the body raises, no
  response is returned and the driver is quit; and where a replacement can be started and
  the queue has room for it and for the driver of the request, the call raises that very
  exception to the caller.
\<close>

theorem process_request_success:
  assumes "is_selenium r"
    and "driver_pool m = d # q"
    and "\<forall>t. queue_timeout m = Some t \<longrightarrow> 0 \<le> t"
    and "pool_size m \<le> 0 \<or> int (length (driver_pool m)) \<le> pool_size m"
    and "on_get b = None"
    and "\<forall>(n, v)\<in>set (cookies r). on_add_cookie b n = None"
  shows "((\<forall>c. wait_until r = Some c \<longrightarrow> wait_time r = Some t \<and> on_wait b = None)
          \<and> (screenshot r \<longrightarrow> on_screenshot b = Inr png)
          \<and> (truthy (script r) \<longrightarrow> on_execute_script b = None)
          \<and> on_page_source b = Inr markup \<and> on_current_url b = Inr u
          \<longrightarrow> process_request m b r w =
             (Returned (Some \<lparr>response_url = u, body = markup, encoding = ''utf-8'',
                response_request =
                  r\<lparr>meta := (if screenshot r then (meta r)(''screenshot'' \<mapsto> MBytes png)
                              else meta r)(''driver'' \<mapsto> MDriver d)\<rparr>\<rparr>),
              r\<lparr>meta := (if screenshot r then (meta r)(''screenshot'' \<mapsto> MBytes png)
                          else meta r)(''driver'' \<mapsto> MDriver d)\<rparr>,
              m\<lparr>driver_pool := q @ [d]\<rparr>,
              w\<lparr>calls := calls w @ map (Pair d)
                 ([Get (url r)] @ map (\<lambda>(n, v). AddCookie n v) (cookies r)
                  @ (case wait_until r of None \<Rightarrow> [] | Some c \<Rightarrow> [WaitUntil c t])
                  @ (if screenshot r then [GetScreenshotAsPng] else [])
                  @ (if truthy (script r) then [ExecuteScript (the (script r))] else [])
                  @ [PageSource, CurrentUrl])\<rparr>))
       \<and> (\<forall>c s e. wait_until r = Some c \<and> wait_time r = Some s \<and> on_wait b = Some e \<longrightarrow>
            drive b d r w =
              (Inl e, r,
               w\<lparr>calls := calls w @ map (Pair d)
                  ([Get (url r)] @ map (\<lambda>(n, v). AddCookie n v) (cookies r)
                   @ [WaitUntil c s])\<rparr>))
       \<and> (\<forall>c. wait_until r = Some c \<and> wait_time r = None \<longrightarrow>
            drive b d r w =
              (Inl (TypeError ''float() argument must be a string or a number''), r,
               w\<lparr>calls := calls w @ map (Pair d)
                  ([Get (url r)] @ map (\<lambda>(n, v). AddCookie n v) (cookies r))\<rparr>))
       \<and> (\<forall>e r' w'. drive b d r w = (Inl e, r', w') \<longrightarrow>
            (\<forall>x. fst (process_request m b r w) \<noteq> Returned x)
            \<and> calls (snd (snd (snd (process_request m b r w)))) = calls w'
            \<and> d \<in> set (quit_calls (snd (snd (snd (process_request m b r w)))))
            \<and> (provisionable m w \<and> \<not> start_fails w (length (started w))
                \<and> (pool_size m \<le> 0 \<or> int (length q) + 2 \<le> pool_size m)
                \<longrightarrow> fst (process_request m b r w) = Raised e))"
proof -
  have g: "get_driver m = (Returned d, m\<lparr>driver_pool := q\<rparr>)"
    using assms(2,3) by (rule get_driver_head)
  have room: "pool_size (m\<lparr>driver_pool := q\<rparr>) \<le> 0
      \<or> int (length (driver_pool (m\<lparr>driver_pool := q\<rparr>))) < pool_size (m\<lparr>driver_pool := q\<rparr>)"
    using assms(2,4) by auto
  have fin: "finally_put d out (m\<lparr>driver_pool := q\<rparr>) = (out, m\<lparr>driver_pool := q @ [d]\<rparr>)"
    for out :: "response option outcome"
    by (simp add: finally_put_def put_driver_room [OF room])
  have ok: "process_request m b r w =
             (Returned (Some \<lparr>response_url = u, body = markup, encoding = ''utf-8'',
                response_request =
                  r\<lparr>meta := (if screenshot r then (meta r)(''screenshot'' \<mapsto> MBytes png)
                              else meta r)(''driver'' \<mapsto> MDriver d)\<rparr>\<rparr>),
              r\<lparr>meta := (if screenshot r then (meta r)(''screenshot'' \<mapsto> MBytes png)
                          else meta r)(''driver'' \<mapsto> MDriver d)\<rparr>,
              m\<lparr>driver_pool := q @ [d]\<rparr>,
              w\<lparr>calls := calls w @ map (Pair d)
                 ([Get (url r)] @ map (\<lambda>(n, v). AddCookie n v) (cookies r)
                  @ (case wait_until r of None \<Rightarrow> [] | Some c \<Rightarrow> [WaitUntil c t])
                  @ (if screenshot r then [GetScreenshotAsPng] else [])
                  @ (if truthy (script r) then [ExecuteScript (the (script r))] else [])
                  @ [PageSource, CurrentUrl])\<rparr>)"
    if "\<forall>c. wait_until r = Some c \<longrightarrow> wait_time r = Some t \<and> on_wait b = None"
      "screenshot r \<longrightarrow> on_screenshot b = Inr png"
      "truthy (script r) \<longrightarrow> on_execute_script b = None"
      "on_page_source b = Inr markup" "on_current_url b = Inr u"
    unfolding process_request_def
    by (simp only: drive_success [OF assms(5,6) that] g fin assms(1) simp_thms if_False
        prod.case outcome.case sum.case)
  have timeout: "drive b d r w =
              (Inl e, r,
               w\<lparr>calls := calls w @ map (Pair d)
                  ([Get (url r)] @ map (\<lambda>(n, v). AddCookie n v) (cookies r)
                   @ [WaitUntil c s])\<rparr>)"
    if "wait_until r = Some c" "wait_time r = Some s" "on_wait b = Some e" for c s e
    using assms(5,6) that by (rule drive_wait_fails)
  have notime: "drive b d r w =
              (Inl (TypeError ''float() argument must be a string or a number''), r,
               w\<lparr>calls := calls w @ map (Pair d)
                  ([Get (url r)] @ map (\<lambda>(n, v). AddCookie n v) (cookies r))\<rparr>)"
    if "wait_until r = Some c" "wait_time r = None" for c
    using assms(5,6) that by (rule drive_wait_no_time)
  have bad: "(\<forall>x. fst (process_request m b r w) \<noteq> Returned x)
            \<and> calls (snd (snd (snd (process_request m b r w)))) = calls w'
            \<and> d \<in> set (quit_calls (snd (snd (snd (process_request m b r w)))))
            \<and> (provisionable m w \<and> \<not> start_fails w (length (started w))
                \<and> (pool_size m \<le> 0 \<or> int (length q) + 2 \<le> pool_size m)
                \<longrightarrow> fst (process_request m b r w) = Raised e)"
    if dr: "drive b d r w = (Inl e, r', w')" for e r' w'
  proof -
    have "fst (process_request m b r w) = Raised e"
      if "provisionable m w" "\<not> start_fails w (length (started w))"
        "pool_size m \<le> 0 \<or> int (length q) + 2 \<le> pool_size m"
      using assms(1) g dr that by (rule process_request_raises)
    with process_request_failure [OF assms(1) g dr] show ?thesis by blast
  qed
  show ?thesis
  proof (intro conjI allI impI)
    fix c s e
    assume "wait_until r = Some c \<and> wait_time r = Some s \<and> on_wait b = Some e"
    then show "drive b d r w =
              (Inl e, r,
               w\<lparr>calls := calls w @ map (Pair d)
                  ([Get (url r)] @ map (\<lambda>(n, v). AddCookie n v) (cookies r)
                   @ [WaitUntil c s])\<rparr>)"
      using timeout by blast
  next
    fix c
    assume "wait_until r = Some c \<and> wait_time r = None"
    then show "drive b d r w =
              (Inl (TypeError ''float() argument must be a string or a number''), r,
               w\<lparr>calls := calls w @ map (Pair d)
                  ([Get (url r)] @ map (\<lambda>(n, v). AddCookie n v) (cookies r))\<rparr>)"
      using notime by blast
  qed (use ok bad in \<open>blast+\<close>)
qed

theorem process_request_success_witness:
  "is_selenium example_request
   \<and> driver_pool (example_middleware\<lparr>driver_pool := [0, 1]\<rparr>) = [0, 1]
   \<and> queue_timeout (example_middleware\<lparr>driver_pool := [0, 1]\<rparr>) = Some 300
   \<and> int (length (driver_pool (example_middleware\<lparr>driver_pool := [0, 1]\<rparr>)))
       \<le> pool_size (example_middleware\<lparr>driver_pool := [0, 1]\<rparr>)
   \<and> process_request (example_middleware\<lparr>driver_pool := [0, 1]\<rparr>) example_browser
        example_request example_world2
       = (Returned (Some \<lparr>response_url = ''http://b'', body = ''<html>'', encoding = ''utf-8'',
            response_request = example_request
              \<lparr>meta := [''screenshot'' \<mapsto> MBytes ''PNG'', ''driver'' \<mapsto> MDriver 0]\<rparr>\<rparr>),
          example_request
            \<lparr>meta := [''screenshot'' \<mapsto> MBytes ''PNG'', ''driver'' \<mapsto> MDriver 0]\<rparr>,
          example_middleware\<lparr>driver_pool := [1, 0]\<rparr>,
          example_world2\<lparr>calls :=
            [(0, Get ''http://a''), (0, AddCookie ''k'' ''v''), (0, WaitUntil ''cond'' 5),
             (0, GetScreenshotAsPng), (0, ExecuteScript ''s()''), (0, PageSource),
             (0, CurrentUrl)]\<rparr>)
   \<and> driver_pool (example_middleware\<lparr>driver_pool := [1]\<rparr>) = [1]
   \<and> provisionable (example_middleware\<lparr>driver_pool := [1]\<rparr>) example_world2
   \<and> drive (example_browser\<lparr>on_wait := Some (WebDriverException ''TimeoutException'')\<rparr>) 1
        example_request example_world2
       = (Inl (WebDriverException ''TimeoutException''), example_request,
          example_world2\<lparr>calls :=
            [(1, Get ''http://a''), (1, AddCookie ''k'' ''v''), (1, WaitUntil ''cond'' 5)]\<rparr>)
   \<and> fst (process_request (example_middleware\<lparr>driver_pool := [1]\<rparr>)
         (example_browser\<lparr>on_wait := Some (WebDriverException ''TimeoutException'')\<rparr>)
         example_request example_world2)
       = Raised (WebDriverException ''TimeoutException'')
   \<and> calls (snd (snd (snd (process_request (example_middleware\<lparr>driver_pool := [1]\<rparr>)
         (example_browser\<lparr>on_wait := Some (WebDriverException ''TimeoutException'')\<rparr>)
         example_request example_world2))))
       = [(1, Get ''http://a''), (1, AddCookie ''k'' ''v''), (1, WaitUntil ''cond'' 5)]"
proof -
  let ?m = "example_middleware\<lparr>driver_pool := [0, 1]\<rparr>"
  let ?m1 = "example_middleware\<lparr>driver_pool := [1]\<rparr>"
  let ?b = "example_browser\<lparr>on_wait := Some (WebDriverException ''TimeoutException'')\<rparr>"
  let ?e = "WebDriverException ''TimeoutException''"
  let ?w' = "example_world2\<lparr>calls :=
            [(1, Get ''http://a''), (1, AddCookie ''k'' ''v''), (1, WaitUntil ''cond'' 5)]\<rparr>"
  have h: "is_selenium example_request" "driver_pool ?m = [0, 1]"
    "\<forall>t. queue_timeout ?m = Some t \<longrightarrow> 0 \<le> t"
    "pool_size ?m \<le> 0 \<or> int (length (driver_pool ?m)) \<le> pool_size ?m"
    "on_get example_browser = None"
    "\<forall>(n, v)\<in>set (cookies example_request). on_add_cookie example_browser n = None"
    by (simp_all add: example_defs)
  have h1: "is_selenium example_request" "driver_pool ?m1 = [1]"
    "\<forall>t. queue_timeout ?m1 = Some t \<longrightarrow> 0 \<le> t"
    "pool_size ?m1 \<le> 0 \<or> int (length (driver_pool ?m1)) \<le> pool_size ?m1"
    "on_get ?b = None"
    "\<forall>(n, v)\<in>set (cookies example_request). on_add_cookie ?b n = None"
    by (simp_all add: example_defs)
  have q: "queue_timeout ?m = Some 300" "int (length (driver_pool ?m)) \<le> pool_size ?m"
    by (simp_all add: example_defs)
  have s: "(\<forall>c. wait_until example_request = Some c \<longrightarrow>
          wait_time example_request = Some 5 \<and> on_wait example_browser = None)
      \<and> (screenshot example_request \<longrightarrow> on_screenshot example_browser = Inr ''PNG'')
      \<and> (truthy (script example_request) \<longrightarrow> on_execute_script example_browser = None)
      \<and> on_page_source example_browser = Inr ''<html>''
      \<and> on_current_url example_browser = Inr ''http://b''"
    by (simp add: example_defs)
  have f: "wait_until example_request = Some ''cond'' \<and> wait_time example_request = Some 5
      \<and> on_wait ?b = Some ?e"
    by (simp add: example_defs)
  have p: "provisionable ?m1 example_world2"
    by (simp add: provisionable_def example_defs)
  have p': "provisionable ?m1 example_world2
      \<and> \<not> start_fails example_world2 (length (started example_world2))
      \<and> (pool_size ?m1 \<le> 0 \<or> int (length ([]::driver list)) + 2 \<le> pool_size ?m1)"
    by (simp add: provisionable_def example_defs)
  note ok = process_request_success
    [OF h, of 5 "''PNG''" "''<html>''" "''http://b''" example_world2]
  note bad = process_request_success
    [OF h1, of 5 "''PNG''" "''<html>''" "''http://b''" example_world2]
  from ok s have a: "process_request ?m example_browser example_request example_world2
       = (Returned (Some \<lparr>response_url = ''http://b'', body = ''<html>'', encoding = ''utf-8'',
            response_request = example_request
              \<lparr>meta := [''screenshot'' \<mapsto> MBytes ''PNG'', ''driver'' \<mapsto> MDriver 0]\<rparr>\<rparr>),
          example_request
            \<lparr>meta := [''screenshot'' \<mapsto> MBytes ''PNG'', ''driver'' \<mapsto> MDriver 0]\<rparr>,
          example_middleware\<lparr>driver_pool := [1, 0]\<rparr>,
          example_world2\<lparr>calls :=
            [(0, Get ''http://a''), (0, AddCookie ''k'' ''v''), (0, WaitUntil ''cond'' 5),
             (0, GetScreenshotAsPng), (0, ExecuteScript ''s()''), (0, PageSource),
             (0, CurrentUrl)]\<rparr>)"
    by (simp add: example_defs truthy_def)
  from bad have "\<forall>c s e. wait_until example_request = Some c
        \<and> wait_time example_request = Some s \<and> on_wait ?b = Some e \<longrightarrow>
      drive ?b 1 example_request example_world2 =
        (Inl e, example_request,
         example_world2\<lparr>calls := calls example_world2 @ map (Pair 1)
            ([Get (url example_request)]
             @ map (\<lambda>(n, v). AddCookie n v) (cookies example_request)
             @ [WaitUntil c s])\<rparr>)"
    by (rule conjunct2 [THEN conjunct1])
  from this [rule_format, OF f]
  have dr: "drive ?b 1 example_request example_world2 = (Inl ?e, example_request, ?w')"
    by (simp add: example_defs)
  from bad have "\<forall>e r' w'. drive ?b 1 example_request example_world2 = (Inl e, r', w') \<longrightarrow>
      (\<forall>x. fst (process_request ?m1 ?b example_request example_world2) \<noteq> Returned x)
      \<and> calls (snd (snd (snd (process_request ?m1 ?b example_request example_world2))))
          = calls w'
      \<and> 1 \<in> set (quit_calls (snd (snd (snd
            (process_request ?m1 ?b example_request example_world2)))))
      \<and> (provisionable ?m1 example_world2
          \<and> \<not> start_fails example_world2 (length (started example_world2))
          \<and> (pool_size ?m1 \<le> 0 \<or> int (length ([]::driver list)) + 2 \<le> pool_size ?m1)
          \<longrightarrow> fst (process_request ?m1 ?b example_request example_world2) = Raised e)"
    by (rule conjunct2 [THEN conjunct2, THEN conjunct2])
  note fl = this [rule_format, OF dr]
  from fl have c: "calls (snd (snd (snd
      (process_request ?m1 ?b example_request example_world2)))) = calls ?w'"
    by (rule conjunct2 [THEN conjunct1])
  from fl have r: "provisionable ?m1 example_world2
          \<and> \<not> start_fails example_world2 (length (started example_world2))
          \<and> (pool_size ?m1 \<le> 0 \<or> int (length ([]::driver list)) + 2 \<le> pool_size ?m1)
          \<longrightarrow> fst (process_request ?m1 ?b example_request example_world2) = Raised ?e"
    by (rule conjunct2 [THEN conjunct2, THEN conjunct2])
  from r p' have r': "fst (process_request ?m1 ?b example_request example_world2) = Raised ?e"
    by (rule mp)
  from c have c': "calls (snd (snd (snd
      (process_request ?m1 ?b example_request example_world2))))
      = [(1, Get ''http://a''), (1, AddCookie ''k'' ''v''), (1, WaitUntil ''cond'' 5)]"
    by simp
  from h(1,2) q a h1(2) p dr r' c' show ?thesis by (intro conjI)
qed

text \<open>
  Claim C9, as amended. \<^verbatim>\<open>process_request\<close> changes nothing of the request but its
  metadata, and there only the keys screenshot and driver; a request that is not a Selenium
  request is not changed at all.
\<close>

theorem process_request_writes_only_meta:
  "fst (snd (process_request m b r w))
     = r\<lparr>meta := meta (fst (snd (process_request m b r w)))\<rparr>
   \<and> (\<forall>k. k \<noteq> ''screenshot'' \<and> k \<noteq> ''driver'' \<longrightarrow>
         meta (fst (snd (process_request m b r w))) k = meta r k)
   \<and> (\<not> is_selenium r \<longrightarrow> fst (snd (process_request m b r w)) = r)"
  using process_request_frame [of m b r w] by (simp add: process_request_def)

theorem process_request_writes_only_meta_witness:
  "''depth'' \<noteq> ''screenshot'' \<and> ''depth'' \<noteq> ''driver''
   \<and> meta (fst (snd (process_request (example_middleware\<lparr>driver_pool := [0, 1]\<rparr>)
        example_browser (example_request\<lparr>meta := [''depth'' \<mapsto> MOther ''1'']\<rparr>)
        example_world2))) ''depth'' = Some (MOther ''1'')
   \<and> \<not> is_selenium (example_request\<lparr>is_selenium := False\<rparr>)
   \<and> fst (snd (process_request (example_middleware\<lparr>driver_pool := [0, 1]\<rparr>)
        example_browser (example_request\<lparr>is_selenium := False\<rparr>) example_world2))
       = example_request\<lparr>is_selenium := False\<rparr>"
proof -
  let ?m = "example_middleware\<lparr>driver_pool := [0, 1]\<rparr>"
  let ?r1 = "example_request\<lparr>meta := [''depth'' \<mapsto> MOther ''1'']\<rparr>"
  let ?r2 = "example_request\<lparr>is_selenium := False\<rparr>"
  have k: "''depth'' \<noteq> ''screenshot'' \<and> ''depth'' \<noteq> ''driver''" by simp
  have n: "\<not> is_selenium ?r2" by simp
  note t1 = process_request_writes_only_meta [of ?m example_browser ?r1 example_world2]
  note t2 = process_request_writes_only_meta [of ?m example_browser ?r2 example_world2]
  from t1 have "\<forall>k. k \<noteq> ''screenshot'' \<and> k \<noteq> ''driver'' \<longrightarrow>
      meta (fst (snd (process_request ?m example_browser ?r1 example_world2))) k = meta ?r1 k"
    by (rule conjunct2 [THEN conjunct1])
  then have "''depth'' \<noteq> ''screenshot'' \<and> ''depth'' \<noteq> ''driver'' \<longrightarrow>
      meta (fst (snd (process_request ?m example_browser ?r1 example_world2))) ''depth''
        = meta ?r1 ''depth''"
    by (rule spec)
  from this k have a: "meta (fst (snd (process_request ?m example_browser ?r1 example_world2)))
      ''depth'' = meta ?r1 ''depth''"
    by (rule mp)
  have a': "meta ?r1 ''depth'' = Some (MOther ''1'')" by simp
  from t2 have "\<not> is_selenium ?r2 \<longrightarrow>
      fst (snd (process_request ?m example_browser ?r2 example_world2)) = ?r2"
    by (rule conjunct2 [THEN conjunct2])
  from this n have b: "fst (snd (process_request ?m example_browser ?r2 example_world2)) = ?r2"
    by (rule mp)
  from k a [unfolded a'] n b show ?thesis by (intro conjI) (erule conjunct1 conjunct2 | assumption)+
qed

text \<open>
  The claim as stated fails: the request of the example has neither key in its metadata
  before the call and both after it.
\<close>

theorem process_request_writes_meta:
  "meta example_request ''driver'' = None
   \<and> meta example_request ''screenshot'' = None
   \<and> fst (process_request (example_middleware\<lparr>driver_pool := [0, 1]\<rparr>)
        example_browser example_request example_world2)
      = Returned (Some \<lparr>response_url = ''http://b'', body = ''<html>'', encoding = ''utf-8'',
          response_request = example_request
            \<lparr>meta := [''screenshot'' \<mapsto> MBytes ''PNG'', ''driver'' \<mapsto> MDriver 0]\<rparr>\<rparr>)
   \<and> meta (fst (snd (process_request (example_middleware\<lparr>driver_pool := [0, 1]\<rparr>)
        example_browser example_request example_world2))) ''driver'' = Some (MDriver 0)
   \<and> meta (fst (snd (process_request (example_middleware\<lparr>driver_pool := [0, 1]\<rparr>)
        example_browser example_request example_world2))) ''screenshot'' = Some (MBytes ''PNG'')"
  by (simp add: eval_defs example_defs)

end
